theory Spec2Isabelle
  imports Main
begin

section \<open>Data model\<close>

text \<open>
  The bot is three collaborating objects that share mutable state: the
  \<^verbatim>\<open>TwitterAPIManager\<close> (quota counters, the bot's own account identifier), the
  \<^verbatim>\<open>StorageManager\<close> (the Supabase tables) and the \<^verbatim>\<open>ReplyHandler\<close> (the processed
  cache and the conversation counters), driven by the \<^verbatim>\<open>TaskScheduler\<close>.  Their
  attributes are the fields of one record \<open>bot\<close> that every operation takes and
  returns.  Everything outside the process (the platform client, the clock, the
  language model, the identifiers the database hands out) is an oracle in the
  record \<open>env\<close>: each oracle is indexed by the number of consultations made so
  far (\<open>tick\<close>), so two calls with the same arguments may answer differently.
\<close>

datatype 'a api = Raises | Returns 'a

text \<open>\<^verbatim>\<open>storage.Reply\<close> and \<^verbatim>\<open>storage.Tweet\<close>.  The attribute \<^verbatim>\<open>id\<close> of the dataclasses is
  the row identifier of the database; in the tables below it is the first component
  of a row.  Datetimes are microseconds since the epoch (UTC).\<close>

record Reply =
  reply_id :: string
  original_tweet_id :: string
  author_id :: "string option"
  content :: string
  created_at :: int
  liked :: bool

record Tweet =
  tweet_id :: string
  tweet_content :: string
  image_url :: "string option"
  posted_at :: int

text \<open>A tweet as \<^verbatim>\<open>search_recent_tweets\<close> returns it; \<open>tw_created_at\<close> is \<open>None\<close>
  when the timestamp does not parse.\<close>

record raw_tweet =
  tw_id :: string
  tw_conversation_id :: "string option"
  tw_author_id :: "string option"
  tw_text :: string
  tw_created_at :: "int option"

text \<open>\<^verbatim>\<open>datetime.time\<close>: hour, minute, second, microsecond.\<close>

type_synonym time_of_day = "nat \<times> nat \<times> nat \<times> nat"

datatype gateway_call =
    SearchRecent string int
  | GetTweet string
  | GetMe
  | Like string
  | CreateTweet string "string option"
  | MediaUpload string
  | GetUser "string option"

record env =
  utcnow :: "nat \<Rightarrow> int"
  local_time :: "nat \<Rightarrow> string \<Rightarrow> time_of_day api"
  existing_ids_query_raises :: "nat \<Rightarrow> bool"
  search_recent_tweets :: "nat \<Rightarrow> string \<Rightarrow> int \<Rightarrow> raw_tweet list api"
  get_tweet :: "nat \<Rightarrow> string \<Rightarrow> string option option api"
  get_me :: "nat \<Rightarrow> string option api"
  like :: "nat \<Rightarrow> string \<Rightarrow> bool api"
  create_tweet :: "nat \<Rightarrow> string \<Rightarrow> string option \<Rightarrow> string option api"
  media_upload :: "nat \<Rightarrow> string \<Rightarrow> string option"
  get_user :: "nat \<Rightarrow> string option \<Rightarrow> string option api"
  llm_generate_reply :: "nat \<Rightarrow> string \<Rightarrow> string \<Rightarrow> string option"
  generate_complete_post :: "nat \<Rightarrow> (string option \<times> string option) api"
  gen_id :: "nat \<Rightarrow> string"
  set_iteration :: "string list \<Rightarrow> string list"

record config =
  auto_like_replies :: bool
  auto_reply_enabled :: bool
  likes_per_day :: int
  max_replies_per_conversation :: int
  posts_per_day :: int
  reads_per_day :: int
  timezone :: string
  time_range_start :: "(nat \<times> nat) option"
  time_range_end :: "(nat \<times> nat) option"

record job_stats_t =
  successful :: int
  failed :: int
  skipped :: int

record bot =
  bot_user_id :: "string option"
  quota_usage :: "(string \<times> int) list"
  last_quota_reset :: int
  supabase :: bool
  replies_table :: "(string \<times> Reply) list"
  tweets_table :: "(string \<times> Tweet) list"
  processed_replies :: "string list"
  startup_check_done :: bool
  conversation_replies :: "(string \<times> int) list"
  last_check :: int
  job_stats :: job_stats_t
  tick :: nat
  calls :: "gateway_call list"

text \<open>Python truthiness of an optional string: \<^verbatim>\<open>None\<close> and \<^verbatim>\<open>''\<close> are false.\<close>

definition truthy :: "string option \<Rightarrow> bool" where
  "truthy v = (case v of None \<Rightarrow> False | Some x \<Rightarrow> x \<noteq> [])"

text \<open>A \<^verbatim>\<open>dict\<close> keeps its keys in insertion order: \<^verbatim>\<open>d.get(k, default)\<close> and
  \<^verbatim>\<open>d[k] = v\<close>.\<close>

definition dict_get :: "('k \<times> 'v) list \<Rightarrow> 'k \<Rightarrow> 'v \<Rightarrow> 'v" where
  "dict_get d k dflt = (case map_of d k of None \<Rightarrow> dflt | Some v \<Rightarrow> v)"

fun dict_set :: "('k \<times> 'v) list \<Rightarrow> 'k \<Rightarrow> 'v \<Rightarrow> ('k \<times> 'v) list" where
  "dict_set [] k v = [(k, v)]"
| "dict_set ((k', v') # d) k v = (if k' = k then (k, v) # d else (k', v') # dict_set d k v)"

text \<open>The processed cache is a \<^verbatim>\<open>set\<close>; the list holds its elements in the order
  they were added.  \<^verbatim>\<open>s.add(x)\<close>:\<close>

definition set_add :: "string list \<Rightarrow> string \<Rightarrow> string list" where
  "set_add c x = (if x \<in> set c then c else c @ [x])"

text \<open>One consultation of the environment, and one call of the platform client.\<close>

definition consult :: "bot \<Rightarrow> bot" where
  "consult s = s\<lparr>tick := Suc (tick s)\<rparr>"

definition gateway :: "gateway_call \<Rightarrow> bot \<Rightarrow> bot" where
  "gateway c s = s\<lparr>tick := Suc (tick s), calls := calls s @ [c]\<rparr>"

section \<open>Event bus\<close>

text \<open>The members of the class \<^verbatim>\<open>EventTypes\<close> of \<^verbatim>\<open>events.py\<close>.  The class is a plain
  class of string constants: reading an attribute it does not define raises
  \<^verbatim>\<open>AttributeError\<close>, here \<open>None\<close>.\<close>

definition EventTypes :: "string \<Rightarrow> string option" where
  "EventTypes name =
     map_of [(''TWEET_POSTED'', ''tweet.posted''), (''TWEET_FAILED'', ''tweet.failed''),
             (''REPLY_RECEIVED'', ''reply.received''), (''REPLY_LIKED'', ''reply.liked''),
             (''METRICS_COLLECTED'', ''metrics.collected''),
             (''BOT_STARTED'', ''bot.started''), (''BOT_STOPPED'', ''bot.stopped''),
             (''MODULE_INITIALIZED'', ''module.initialized''),
             (''MODULE_FAILED'', ''module.failed''),
             (''CONFIG_UPDATED'', ''config.updated''), (''CONFIG_RELOADED'', ''config.reloaded''),
             (''API_ERROR'', ''api.error''), (''QUOTA_WARNING'', ''quota.warning''),
             (''QUOTA_EXCEEDED'', ''quota.exceeded''),
             (''HEALTH_CHECK'', ''health.check''), (''ALERT_TRIGGERED'', ''alert.triggered'')]
       name"

text \<open>\<^verbatim>\<open>self.event_bus.publish(EventTypes.NAME, ...)\<close>.  The first argument is evaluated
  first and may raise.  Otherwise the bus appends the event to its history and calls
  the subscribed handlers, catching what they raise; the handlers log and publish
  further events, and none of them touches the state of the three managers, so the
  state of the model stays as it is.\<close>

definition publish :: "string \<Rightarrow> bot \<Rightarrow> unit api \<times> bot" where
  "publish name s = (case EventTypes name of None \<Rightarrow> (Raises, s) | Some event_type \<Rightarrow> (Returns (), s))"

section \<open>StorageManager\<close>

text \<open>The tables answer the queries of \<^verbatim>\<open>save_reply\<close>, \<^verbatim>\<open>mark_reply_liked\<close>,
  \<^verbatim>\<open>reply_exists\<close>, \<^verbatim>\<open>get_recent_tweets\<close> and \<^verbatim>\<open>save_tweet\<close> while the client exists
  (\<open>supabase\<close>), so the \<^verbatim>\<open>except\<close> branches of \<^verbatim>\<open>save_reply\<close> that handle a
  duplicate-key conflict are not reached: the existence query has already answered.
  The batch query of \<^verbatim>\<open>get_existing_reply_ids\<close> may raise (a timeout, a lost
  connection), as the environment decides; the method then returns the empty list.\<close>

definition save_reply :: "env \<Rightarrow> Reply \<Rightarrow> bot \<Rightarrow> string option \<times> bot" where
  "save_reply e reply s =
     (if \<not> supabase s then (None, s)
      else case filter (\<lambda>row. reply_id (snd row) = reply_id reply) (replies_table s) of
          row # _ \<Rightarrow>
            (Some (fst row),
             if liked reply
             then s\<lparr>replies_table :=
                      map (\<lambda>r. if reply_id (snd r) = reply_id reply
                                then (fst r, (snd r)\<lparr>liked := liked reply\<rparr>) else r)
                          (replies_table s)\<rparr>
             else s)
        | [] \<Rightarrow>
            (Some (gen_id e (tick s)),
             consult (s\<lparr>replies_table := replies_table s @ [(gen_id e (tick s), reply)]\<rparr>)))"

definition mark_reply_liked :: "string \<Rightarrow> bot \<Rightarrow> bool api \<times> bot" where
  "mark_reply_liked rid s =
     (if \<not> supabase s then (Raises, s)
      else (Returns (\<exists>r \<in> set (replies_table s). reply_id (snd r) = rid),
            s\<lparr>replies_table :=
                 map (\<lambda>r. if reply_id (snd r) = rid then (fst r, (snd r)\<lparr>liked := True\<rparr>) else r)
                     (replies_table s)\<rparr>))"

definition reply_exists :: "string \<Rightarrow> bot \<Rightarrow> bool" where
  "reply_exists rid s =
     (if \<not> supabase s then False
      else (\<exists>r \<in> set (replies_table s). reply_id (snd r) = rid))"

definition get_existing_reply_ids :: "env \<Rightarrow> string list \<Rightarrow> bot \<Rightarrow> string list" where
  "get_existing_reply_ids e reply_ids s =
     (if \<not> supabase s \<or> reply_ids = [] then []
      else if existing_ids_query_raises e (tick s) then []
      else map (\<lambda>r. reply_id (snd r))
             (filter (\<lambda>r. reply_id (snd r) \<in> set reply_ids) (replies_table s)))"

definition get_recent_tweets :: "env \<Rightarrow> int \<Rightarrow> bot \<Rightarrow> Tweet list api \<times> bot" where
  "get_recent_tweets e hours s =
     (if \<not> supabase s then (Raises, s)
      else (Returns (rev (sort_key posted_at
                      (filter (\<lambda>t. utcnow e (tick s) - hours * 3600000000 \<le> posted_at t)
                              (map snd (tweets_table s))))),
            consult s))"

text \<open>\<^verbatim>\<open>save_tweet\<close> publishes \<^verbatim>\<open>API_ERROR\<close> when there is no client and
  \<^verbatim>\<open>TWEET_POSTED\<close> after the insertion.\<close>

definition save_tweet :: "env \<Rightarrow> Tweet \<Rightarrow> bot \<Rightarrow> string option \<times> bot" where
  "save_tweet e tweet s =
     (if \<not> supabase s then (None, snd (publish ''API_ERROR'' s))
      else (Some (gen_id e (tick s)),
            snd (publish ''TWEET_POSTED''
                   (consult (s\<lparr>tweets_table := tweets_table s @ [(gen_id e (tick s), tweet)]\<rparr>)))))"

section \<open>TwitterAPIManager\<close>

text \<open>\<^verbatim>\<open>timedelta.days\<close> of a difference given in microseconds.\<close>

definition timedelta_days :: "int \<Rightarrow> int" where
  "timedelta_days d = d div 86400000000"

text \<open>\<^verbatim>\<open>_check_quota\<close>.  The limit of an operation other than the three known ones is
  \<^verbatim>\<open>float('inf')\<close>, here \<open>None\<close>.\<close>

definition check_quota :: "env \<Rightarrow> config \<Rightarrow> string \<Rightarrow> int \<Rightarrow> bot \<Rightarrow> bool \<times> bot" where
  "check_quota e cfg operation count s =
     (let now = utcnow e (tick s);
          s1 = consult (if 1 \<le> timedelta_days (now - last_quota_reset s)
                        then s\<lparr>quota_usage := [(''posts'', 0), (''reads'', 0), (''likes'', 0)],
                               last_quota_reset := now\<rparr>
                        else s);
          current_usage = dict_get (quota_usage s1) operation 0;
          daily_limit = (if operation = ''posts'' then Some (posts_per_day cfg)
                         else if operation = ''reads'' then Some (reads_per_day cfg)
                         else if operation = ''likes'' then Some (likes_per_day cfg)
                         else None)
      in (case daily_limit of
            None \<Rightarrow> True
          | Some lim \<Rightarrow> \<not> (0 < lim \<and> lim < current_usage + count),
          s1))"

definition update_quota :: "string \<Rightarrow> int \<Rightarrow> bot \<Rightarrow> bot" where
  "update_quota operation count s =
     s\<lparr>quota_usage := dict_set (quota_usage s) operation
                          (dict_get (quota_usage s) operation 0 + count)\<rparr>"

definition upload_media :: "env \<Rightarrow> string \<Rightarrow> bot \<Rightarrow> string option \<times> bot" where
  "upload_media e image_source s =
     (media_upload e (tick s) image_source, gateway (MediaUpload image_source) s)"

text \<open>\<^verbatim>\<open>post_tweet\<close>.  An exception of the client is re-raised, caught by
  \<^verbatim>\<open>safe_execute\<close> (severity HIGH) and turned into \<^verbatim>\<open>None\<close>, so the retry decorator
  never sees it.\<close>

definition post_tweet ::
  "env \<Rightarrow> config \<Rightarrow> string \<Rightarrow> string option \<Rightarrow> string option \<Rightarrow> bot \<Rightarrow> string option \<times> bot" where
  "post_tweet e cfg text img reply_to s =
     (case check_quota e cfg ''posts'' 1 s of
        (False, s1) \<Rightarrow> (None, s1)
      | (True, s1) \<Rightarrow>
          let s2 = (case img of
                      None \<Rightarrow> s1
                    | Some url \<Rightarrow> if url = [] then s1 else snd (upload_media e url s1));
              target = (if truthy reply_to then reply_to else None);
              response = create_tweet e (tick s2) text target;
              s3 = gateway (CreateTweet text target) s2
          in (case response of
                Raises \<Rightarrow> (None, s3)
              | Returns new_id \<Rightarrow>
                  if truthy new_id then (new_id, update_quota ''posts'' 1 s3) else (None, s3)))"

definition like_tweet :: "env \<Rightarrow> config \<Rightarrow> string \<Rightarrow> bot \<Rightarrow> bool \<times> bot" where
  "like_tweet e cfg tid s =
     (case check_quota e cfg ''likes'' 1 s of
        (False, s1) \<Rightarrow> (False, s1)
      | (True, s1) \<Rightarrow>
          let tweet_response = get_tweet e (tick s1) tid;
              s2 = gateway (GetTweet tid) s1
          in (case tweet_response of
                Raises \<Rightarrow> (False, s2)
              | Returns tweet_data \<Rightarrow>
                  if (case tweet_data of
                        None \<Rightarrow> False
                      | Some tweet_author_id \<Rightarrow>
                          truthy (bot_user_id s2) \<and> tweet_author_id = bot_user_id s2)
                  then (False, s2)
                  else
                    let me = get_me e (tick s2);
                        s3 = gateway GetMe s2
                    in (case me of
                          Raises \<Rightarrow> (False, s3)
                        | Returns user_id \<Rightarrow>
                            if \<not> truthy user_id then (False, s3)
                            else
                              let response = like e (tick s3) tid;
                                  s4 = gateway (Like tid) s3
                              in (case response of
                                    Raises \<Rightarrow> (False, s4)
                                  | Returns lk \<Rightarrow>
                                      if lk then (True, update_quota ''likes'' 1 s4)
                                      else (False, s4)))))"

text \<open>The loop of \<^verbatim>\<open>get_tweet_replies\<close> over the tweets of the response; \<open>now\<close>
  stands for the \<^verbatim>\<open>datetime.utcnow()\<close> an unparsable timestamp falls back to.\<close>

fun collect_replies :: "string option \<Rightarrow> string \<Rightarrow> int \<Rightarrow> raw_tweet list \<Rightarrow> Reply list" where
  "collect_replies bot_id tid now [] = []"
| "collect_replies bot_id tid now (tweet # rest) =
     (if tw_conversation_id tweet \<noteq> Some tid then collect_replies bot_id tid now rest
      else if truthy bot_id \<and> tw_author_id tweet = bot_id then collect_replies bot_id tid now rest
      else \<lparr>reply_id = tw_id tweet, original_tweet_id = tid, author_id = tw_author_id tweet,
            content = tw_text tweet,
            created_at = (case tw_created_at tweet of None \<Rightarrow> now | Some t \<Rightarrow> t),
            liked = False\<rparr>
           # collect_replies bot_id tid now rest)"

definition get_tweet_replies :: "env \<Rightarrow> config \<Rightarrow> string \<Rightarrow> int \<Rightarrow> bot \<Rightarrow> Reply list \<times> bot" where
  "get_tweet_replies e cfg tid max_results s =
     (case check_quota e cfg ''reads'' max_results s of
        (False, s1) \<Rightarrow> ([], s1)
      | (True, s1) \<Rightarrow>
          let response = search_recent_tweets e (tick s1) tid (min (max max_results 10) 100);
              s2 = gateway (SearchRecent tid (min (max max_results 10) 100)) s1
          in (case response of
                Raises \<Rightarrow> ([], s2)
              | Returns tweets_data \<Rightarrow>
                  if tweets_data = [] then ([], s2)
                  else (collect_replies (bot_user_id s2) tid (utcnow e (tick s2)) tweets_data,
                        consult (update_quota ''reads'' (int (length tweets_data)) s2))))"

text \<open>\<^verbatim>\<open>get_quota_status\<close>: the usage dictionary and the daily limit of posts, \<open>None\<close>
  for \<^verbatim>\<open>'unlimited'\<close>.\<close>

definition get_quota_status :: "config \<Rightarrow> bot \<Rightarrow> (string \<times> int) list \<times> int option" where
  "get_quota_status cfg s =
     (quota_usage s, if 0 < posts_per_day cfg then Some (posts_per_day cfg) else None)"

section \<open>TaskScheduler\<close>

text \<open>Python compares \<^verbatim>\<open>datetime.time\<close> values field by field.\<close>

fun time_le :: "time_of_day \<Rightarrow> time_of_day \<Rightarrow> bool" where
  "time_le (h1, m1, s1, u1) (h2, m2, s2, u2) =
     (h1 < h2 \<or> (h1 = h2 \<and> (m1 < m2 \<or> (m1 = m2 \<and> (s1 < s2 \<or> (s1 = s2 \<and> u1 \<le> u2))))))"

text \<open>\<^verbatim>\<open>_is_in_posting_hours\<close>.  The oracle \<open>local_time\<close> is
  \<^verbatim>\<open>datetime.now(pytz.timezone(name)).time()\<close>, which raises when \<^verbatim>\<open>pytz\<close> does not
  know the zone.  The bounds of the window are the parsed \<^verbatim>\<open>'%H:%M'\<close> strings,
  \<open>None\<close> when \<^verbatim>\<open>strptime\<close> raises.  Every exception makes the answer \<^verbatim>\<open>False\<close>.\<close>

definition is_in_posting_hours :: "env \<Rightarrow> config \<Rightarrow> bot \<Rightarrow> bool \<times> bot" where
  "is_in_posting_hours e cfg s =
     (let s1 = consult s
      in (case local_time e (tick s) (timezone cfg) of
            Raises \<Rightarrow> (False, s1)
          | Returns now \<Rightarrow>
              (case (time_range_start cfg, time_range_end cfg) of
                 (Some (sh, sm), Some (eh, em)) \<Rightarrow>
                   let start_time = (sh, sm, 0, 0);
                       end_time = (eh, em, 0, 0)
                   in if time_le start_time end_time
                      then (time_le start_time now \<and> time_le now end_time, s1)
                      else (time_le start_time now \<or> time_le now end_time, s1)
               | _ \<Rightarrow> (False, s1))))"

definition check_posting_quota :: "(string \<times> int) list \<times> int option \<Rightarrow> bool" where
  "check_posting_quota quota_status =
     (case snd quota_status of
        None \<Rightarrow> True
      | Some posts_limit \<Rightarrow> \<not> (posts_limit \<le> dict_get (fst quota_status) ''posts'' 0))"

definition count_skipped :: "bot \<Rightarrow> bot" where
  "count_skipped s = s\<lparr>job_stats := (job_stats s)\<lparr>skipped := skipped (job_stats s) + 1\<rparr>\<rparr>"

definition count_failed :: "bot \<Rightarrow> bot" where
  "count_failed s = s\<lparr>job_stats := (job_stats s)\<lparr>failed := failed (job_stats s) + 1\<rparr>\<rparr>"

definition count_successful :: "bot \<Rightarrow> bot" where
  "count_successful s = s\<lparr>job_stats := (job_stats s)\<lparr>successful := successful (job_stats s) + 1\<rparr>\<rparr>"

text \<open>The \<^verbatim>\<open>try\<close> block of \<^verbatim>\<open>_generate_and_post_job\<close>; the result \<open>Raises\<close> comes with the
  state reached when the exception was raised.\<close>

definition generate_and_post_attempt :: "env \<Rightarrow> config \<Rightarrow> bot \<Rightarrow> unit api \<times> bot" where
  "generate_and_post_attempt e cfg s =
     (case publish ''TWEET_GENERATION_STARTED'' s of
        (Raises, s0) \<Rightarrow> (Raises, s0)
      | (Returns _, s0) \<Rightarrow>
          (case is_in_posting_hours e cfg s0 of
             (False, s1) \<Rightarrow> publish ''TWEET_GENERATION_FAILED'' (count_skipped s1)
           | (True, s1) \<Rightarrow>
               if \<not> check_posting_quota (get_quota_status cfg s1)
               then publish ''API_ERROR'' (count_skipped s1)
               else
                 (case generate_complete_post e (tick s1) of
                    Raises \<Rightarrow> (Raises, consult s1)
                  | Returns (None, img) \<Rightarrow>
                      publish ''TWEET_GENERATION_FAILED'' (count_failed (consult s1))
                  | Returns (Some tweet_text, img) \<Rightarrow>
                      if tweet_text = []
                      then publish ''TWEET_GENERATION_FAILED'' (count_failed (consult s1))
                      else
                        (case post_tweet e cfg tweet_text img None (consult s1) of
                           (None, s2) \<Rightarrow> publish ''TWEET_GENERATION_FAILED'' (count_failed s2)
                         | (Some new_id, s2) \<Rightarrow>
                             (case save_tweet e
                                     \<lparr>tweet_id = new_id, tweet_content = tweet_text,
                                      image_url = img, posted_at = utcnow e (tick s2)\<rparr>
                                     (consult s2) of
                                (saved_id, s3) \<Rightarrow>
                                  if truthy saved_id
                                  then publish ''TWEET_POSTED'' (count_successful s3)
                                  else (Returns (), count_successful s3))))))"

text \<open>\<^verbatim>\<open>_generate_and_post_job\<close>.  The \<^verbatim>\<open>except\<close> branch counts a failure, publishes
  \<^verbatim>\<open>API_ERROR\<close> and raises again; the decorator \<^verbatim>\<open>safe_execute\<close> (severity HIGH)
  publishes \<^verbatim>\<open>API_ERROR\<close> once more and returns \<^verbatim>\<open>None\<close>.\<close>

definition generate_and_post_job :: "env \<Rightarrow> config \<Rightarrow> bot \<Rightarrow> bot" where
  "generate_and_post_job e cfg s =
     (case generate_and_post_attempt e cfg s of
        (Returns _, s1) \<Rightarrow> s1
      | (Raises, s1) \<Rightarrow>
          snd (publish ''API_ERROR'' (snd (publish ''API_ERROR'' (count_failed s1)))))"

text \<open>Any number of firings of the posting job, one after the other.\<close>

fun run_jobs :: "env \<Rightarrow> config \<Rightarrow> nat \<Rightarrow> bot \<Rightarrow> bot" where
  "run_jobs e cfg 0 s = s"
| "run_jobs e cfg (Suc n) s = run_jobs e cfg n (generate_and_post_job e cfg s)"

section \<open>The posting window in the words of the specification\<close>

text \<open>A time of day as microseconds since midnight, for times whose minute, second
  and microsecond are in range.  The window \<open>[start, end]\<close> is inclusive, and a
  window with \<open>start > end\<close> spans midnight: the times after \<open>start\<close> or before
  \<open>end\<close> are inside.\<close>

definition valid_time :: "time_of_day \<Rightarrow> bool" where
  "valid_time t = (case t of (h, m, s, u) \<Rightarrow> m < 60 \<and> s < 60 \<and> u < 1000000)"

definition micros :: "time_of_day \<Rightarrow> nat" where
  "micros t = (case t of (h, m, s, u) \<Rightarrow> ((h * 60 + m) * 60 + s) * 1000000 + u)"

definition spec_in_window :: "nat \<Rightarrow> nat \<Rightarrow> nat \<Rightarrow> bool" where
  "spec_in_window start finish now =
     (if start \<le> finish then start \<le> now \<and> now \<le> finish
      else start \<le> now \<or> now \<le> finish)"

section \<open>ReplyHandler\<close>

record reply_stats =
  checked_tweets :: int
  new_replies :: int
  likes_sent :: int
  replies_sent :: int
  errors :: int
  startup_check :: bool

definition auto_like_reply :: "env \<Rightarrow> config \<Rightarrow> string \<Rightarrow> bot \<Rightarrow> bool \<times> bot" where
  "auto_like_reply e cfg rid s =
     (if truthy (bot_user_id s)
      then
        (let tweet_response = get_tweet e (tick s) rid;
             s1 = gateway (GetTweet rid) s
         in (case tweet_response of
               Returns (Some tweet_author_id) \<Rightarrow>
                 if tweet_author_id = bot_user_id s1 then (False, s1) else like_tweet e cfg rid s1
             | _ \<Rightarrow> like_tweet e cfg rid s1))
      else like_tweet e cfg rid s)"

definition get_username_from_author_id :: "env \<Rightarrow> string option \<Rightarrow> bot \<Rightarrow> string option \<times> bot" where
  "get_username_from_author_id e author s =
     (case get_user e (tick s) author of Raises \<Rightarrow> None | Returns username \<Rightarrow> username,
      gateway (GetUser author) s)"

definition generate_llm_reply :: "env \<Rightarrow> Reply \<Rightarrow> bot \<Rightarrow> string option \<times> bot" where
  "generate_llm_reply e reply s =
     (case get_username_from_author_id e (author_id reply) s of
        (username, s1) \<Rightarrow>
          (case llm_generate_reply e (tick s1) (content reply)
                  (case username of
                     None \<Rightarrow> ''friend''
                   | Some u \<Rightarrow> if u = [] then ''friend'' else u) of
             None \<Rightarrow> (None, consult s1)
           | Some response \<Rightarrow>
               if response \<noteq> [] \<and> length response \<le> 280 then (Some response, consult s1)
               else (None, consult s1)))"

definition generate_reply_content :: "env \<Rightarrow> Reply \<Rightarrow> bot \<Rightarrow> string option \<times> bot" where
  "generate_reply_content e reply s =
     (case generate_llm_reply e reply s of
        (Some contextual_response, s1) \<Rightarrow>
          if contextual_response \<noteq> [] then (Some contextual_response, s1) else (None, s1)
      | (None, s1) \<Rightarrow> (None, s1))"

definition auto_reply_to_comment :: "env \<Rightarrow> config \<Rightarrow> Reply \<Rightarrow> bot \<Rightarrow> bool \<times> bot" where
  "auto_reply_to_comment e cfg reply s =
     (let conversation_key = original_tweet_id reply;
          current_replies = dict_get (conversation_replies s) conversation_key 0
      in if max_replies_per_conversation cfg \<le> current_replies then (False, s)
         else
           (case generate_reply_content e reply s of
              (None, s1) \<Rightarrow> (False, s1)
            | (Some response_content, s1) \<Rightarrow>
                if response_content = [] then (False, s1)
                else
                  (case post_tweet e cfg response_content None (Some (reply_id reply)) s1 of
                     (response_tweet_id, s2) \<Rightarrow>
                       if truthy response_tweet_id
                       then (True,
                             s2\<lparr>conversation_replies :=
                                  dict_set (conversation_replies s2) conversation_key
                                    (current_replies + 1)\<rparr>)
                       else (False, s2))))"

text \<open>The block both scans run for a reply they act on: the like, with the mark in
  the table, then the reply.  The first component of the result tells that
  \<^verbatim>\<open>mark_reply_liked\<close> raised, which ends the handling of the current tweet.\<close>

definition like_and_reply ::
  "env \<Rightarrow> config \<Rightarrow> Reply \<Rightarrow> reply_stats \<Rightarrow> bot \<Rightarrow> bool \<times> reply_stats \<times> bot" where
  "like_and_reply e cfg reply st s =
     (case (if auto_like_replies cfg
            then (case auto_like_reply e cfg (reply_id reply) s of
                    (False, s1) \<Rightarrow> (False, st, s1)
                  | (True, s1) \<Rightarrow>
                      (case mark_reply_liked (reply_id reply) s1 of
                         (Raises, s2) \<Rightarrow> (True, st\<lparr>likes_sent := likes_sent st + 1\<rparr>, s2)
                       | (Returns _, s2) \<Rightarrow> (False, st\<lparr>likes_sent := likes_sent st + 1\<rparr>, s2)))
            else (False, st, s)) of
        (True, st1, s1) \<Rightarrow> (True, st1, s1)
      | (False, st1, s1) \<Rightarrow>
          if auto_reply_enabled cfg
          then (case auto_reply_to_comment e cfg reply s1 of
                  (True, s2) \<Rightarrow> (False, st1\<lparr>replies_sent := replies_sent st1 + 1\<rparr>, s2)
                | (False, s2) \<Rightarrow> (False, st1, s2))
          else (False, st1, s1))"

text \<open>The body of the inner loop of \<^verbatim>\<open>check_and_handle_replies\<close>.\<close>

definition process_reply ::
  "env \<Rightarrow> config \<Rightarrow> string list \<Rightarrow> Reply \<Rightarrow> reply_stats \<Rightarrow> bot \<Rightarrow> bool \<times> reply_stats \<times> bot" where
  "process_reply e cfg existing_reply_ids reply st s =
     (if reply_id reply \<in> set (processed_replies s) then (False, st, s)
      else if reply_id reply \<in> set existing_reply_ids
      then (False, st,
            s\<lparr>processed_replies := set_add (processed_replies s) (reply_id reply)\<rparr>)
      else
        (case save_reply e reply
                (s\<lparr>processed_replies := set_add (processed_replies s) (reply_id reply)\<rparr>) of
           (saved_id, s1) \<Rightarrow>
             if truthy saved_id
             then like_and_reply e cfg reply (st\<lparr>new_replies := new_replies st + 1\<rparr>) s1
             else (False, st\<lparr>new_replies := new_replies st + 1\<rparr>, s1)))"

fun handle_replies ::
  "env \<Rightarrow> config \<Rightarrow> string list \<Rightarrow> Reply list \<Rightarrow> reply_stats \<Rightarrow> bot \<Rightarrow> bool \<times> reply_stats \<times> bot" where
  "handle_replies e cfg existing_reply_ids [] st s = (False, st, s)"
| "handle_replies e cfg existing_reply_ids (reply # rest) st s =
     (case process_reply e cfg existing_reply_ids reply st s of
        (True, st1, s1) \<Rightarrow> (True, st1, s1)
      | (False, st1, s1) \<Rightarrow> handle_replies e cfg existing_reply_ids rest st1 s1)"

text \<open>The outer loop: one page of replies for each owned tweet.  An exception in the
  body is counted and the loop goes on with the next tweet.\<close>

fun handle_tweets :: "env \<Rightarrow> config \<Rightarrow> Tweet list \<Rightarrow> reply_stats \<Rightarrow> bot \<Rightarrow> reply_stats \<times> bot" where
  "handle_tweets e cfg [] st s = (st, s)"
| "handle_tweets e cfg (tweet # rest) st s =
     (case get_tweet_replies e cfg (tweet_id tweet) 10 s of
        (replies, s1) \<Rightarrow>
          if replies = [] then handle_tweets e cfg rest st s1
          else
            (case handle_replies e cfg (get_existing_reply_ids e (map reply_id replies) s1)
                    replies st s1 of
               (True, st2, s2) \<Rightarrow> handle_tweets e cfg rest (st2\<lparr>errors := errors st2 + 1\<rparr>) s2
             | (False, st2, s2) \<Rightarrow> handle_tweets e cfg rest st2 s2))"

text \<open>The two trims at the end of a cycle.  \<^verbatim>\<open>list(a_set)\<close> lists the set in its
  iteration order, which the environment decides.  \<^verbatim>\<open>sorted(..., reverse=True)\<close> is
  stable: entries with equal counts keep their order.\<close>

definition clean_processed_replies :: "env \<Rightarrow> bot \<Rightarrow> bot" where
  "clean_processed_replies e s =
     (if 1000 < length (processed_replies s)
      then s\<lparr>processed_replies :=
               drop (length (set_iteration e (processed_replies s)) - 500)
                    (set_iteration e (processed_replies s))\<rparr>
      else s)"

definition clean_conversation_replies :: "bot \<Rightarrow> bot" where
  "clean_conversation_replies s =
     (if 100 < length (conversation_replies s)
      then s\<lparr>conversation_replies :=
               take 50 (sort_key (\<lambda>x. - snd x) (conversation_replies s))\<rparr>
      else s)"

definition check_and_handle_replies :: "env \<Rightarrow> config \<Rightarrow> bot \<Rightarrow> reply_stats option \<times> bot" where
  "check_and_handle_replies e cfg s =
     (case get_recent_tweets e (if startup_check_done s then 24 else 168) s of
        (Raises, s1) \<Rightarrow> (None, s1)
      | (Returns our_tweets, s1) \<Rightarrow>
          (case handle_tweets e cfg our_tweets
                  \<lparr>checked_tweets = int (length our_tweets), new_replies = 0, likes_sent = 0,
                   replies_sent = 0, errors = 0, startup_check = \<not> startup_check_done s\<rparr>
                  (s1\<lparr>startup_check_done := True\<rparr>) of
             (stats, s2) \<Rightarrow>
               (Some stats,
                consult ((clean_conversation_replies (clean_processed_replies e s2))
                           \<lparr>last_check := utcnow e (tick s2)\<rparr>))))"

definition reset_processed_cache :: "bot \<Rightarrow> bot" where
  "reset_processed_cache s = s\<lparr>processed_replies := []\<rparr>"

text \<open>\<^verbatim>\<open>manual_deep_scan\<close>: the loops over the replies of a tweet and over the tweets.\<close>

definition scan_reply ::
  "env \<Rightarrow> config \<Rightarrow> string list \<Rightarrow> Reply \<Rightarrow> reply_stats \<Rightarrow> bot \<Rightarrow> bool \<times> reply_stats \<times> bot" where
  "scan_reply e cfg original_cache reply st s =
     (if reply_id reply \<in> set original_cache then (False, st, s)
      else like_and_reply e cfg reply (st\<lparr>new_replies := new_replies st + 1\<rparr>)
             (snd (save_reply e reply s)))"

fun scan_replies ::
  "env \<Rightarrow> config \<Rightarrow> string list \<Rightarrow> Reply list \<Rightarrow> reply_stats \<Rightarrow> bot \<Rightarrow> bool \<times> reply_stats \<times> bot" where
  "scan_replies e cfg original_cache [] st s = (False, st, s)"
| "scan_replies e cfg original_cache (reply # rest) st s =
     (case scan_reply e cfg original_cache reply st s of
        (True, st1, s1) \<Rightarrow> (True, st1, s1)
      | (False, st1, s1) \<Rightarrow> scan_replies e cfg original_cache rest st1 s1)"

fun scan_tweets ::
  "env \<Rightarrow> config \<Rightarrow> string list \<Rightarrow> Tweet list \<Rightarrow> reply_stats \<Rightarrow> bot \<Rightarrow> reply_stats \<times> bot" where
  "scan_tweets e cfg original_cache [] st s = (st, s)"
| "scan_tweets e cfg original_cache (tweet # rest) st s =
     (case get_tweet_replies e cfg (tweet_id tweet) 10 s of
        (replies, s1) \<Rightarrow>
          (case scan_replies e cfg original_cache replies st s1 of
             (True, st2, s2) \<Rightarrow>
               scan_tweets e cfg original_cache rest (st2\<lparr>errors := errors st2 + 1\<rparr>) s2
           | (False, st2, s2) \<Rightarrow> scan_tweets e cfg original_cache rest st2 s2))"

definition manual_deep_scan :: "env \<Rightarrow> config \<Rightarrow> int \<Rightarrow> bot \<Rightarrow> reply_stats option \<times> bot" where
  "manual_deep_scan e cfg days s =
     (case get_recent_tweets e (days * 24) s of
        (Raises, s1) \<Rightarrow> (None, s1)
      | (Returns our_tweets, s1) \<Rightarrow>
          (case scan_tweets e cfg (processed_replies s1) our_tweets
                  \<lparr>checked_tweets = int (length our_tweets), new_replies = 0, likes_sent = 0,
                   replies_sent = 0, errors = 0, startup_check = False\<rparr>
                  (s1\<lparr>processed_replies := []\<rparr>) of
             (stats, s2) \<Rightarrow> (Some stats, s2\<lparr>processed_replies := processed_replies s1\<rparr>)))"

section \<open>Concrete states\<close>

definition stored_reply :: Reply where
  "stored_reply = \<lparr>reply_id = ''r1'', original_tweet_id = ''t1'', author_id = Some ''42'',
                    content = ''nice'', created_at = 0, liked = True\<rparr>"

definition bot_with_stored_reply :: bot where
  "bot_with_stored_reply =
     \<lparr>bot_user_id = Some ''7'', quota_usage = [(''posts'', 0), (''reads'', 0), (''likes'', 0)],
      last_quota_reset = 0, supabase = True,
      replies_table = [(''row-1'', stored_reply)], tweets_table = [],
      processed_replies = [], startup_check_done = False, conversation_replies = [],
      last_check = 0, job_stats = \<lparr>successful = 0, failed = 0, skipped = 0\<rparr>,
      tick = 0, calls = []\<rparr>"

definition demo_env :: env where
  "demo_env =
     \<lparr>utcnow = (\<lambda>_. 0), local_time = (\<lambda>_ _. Returns (12, 0, 0, 0)),
      existing_ids_query_raises = (\<lambda>_. False),
      search_recent_tweets = (\<lambda>_ _ _. Returns []),
      get_tweet = (\<lambda>_ _. Returns (Some (Some ''100''))),
      get_me = (\<lambda>_. Returns (Some ''7'')),
      like = (\<lambda>_ _. Returns True),
      create_tweet = (\<lambda>_ _ _. Returns (Some ''900'')),
      media_upload = (\<lambda>_ _. None),
      get_user = (\<lambda>_ _. Returns (Some ''alice'')),
      llm_generate_reply = (\<lambda>_ _ _. Some ''thanks''),
      generate_complete_post = (\<lambda>_. Returns (Some ''hello'', None)),
      gen_id = (\<lambda>_. ''row''),
      set_iteration = (\<lambda>xs. xs)\<rparr>"

definition demo_config :: config where
  "demo_config =
     \<lparr>auto_like_replies = True, auto_reply_enabled = True, likes_per_day = 100,
      max_replies_per_conversation = 1, posts_per_day = 5, reads_per_day = 1000,
      timezone = ''Europe/Paris'',
      time_range_start = Some (9, 0), time_range_end = Some (21, 0)\<rparr>"

definition fresh_bot :: bot where
  "fresh_bot =
     \<lparr>bot_user_id = Some ''7'', quota_usage = [(''posts'', 0), (''reads'', 0), (''likes'', 0)],
      last_quota_reset = 0, supabase = True, replies_table = [], tweets_table = [],
      processed_replies = [], startup_check_done = False, conversation_replies = [],
      last_check = 0, job_stats = \<lparr>successful = 0, failed = 0, skipped = 0\<rparr>,
      tick = 0, calls = []\<rparr>"

text \<open>Five posts used; the counters were last reset at 23:00 of day 0, and the clock
  of \<open>after_midnight_env\<close> shows 00:30 of day 1.\<close>

definition late_reset_bot :: bot where
  "late_reset_bot =
     fresh_bot\<lparr>quota_usage := [(''posts'', 5), (''reads'', 0), (''likes'', 0)],
               last_quota_reset := 82800000000\<rparr>"

definition after_midnight_env :: env where
  "after_midnight_env = demo_env\<lparr>utcnow := (\<lambda>_. 88200000000)\<rparr>"

definition next_day_env :: env where
  "next_day_env = demo_env\<lparr>utcnow := (\<lambda>_. 172800000000)\<rparr>"

text \<open>Clocks for the posting window: one microsecond before 09:00, 09:00 sharp, 23:30.\<close>

definition early_env :: env where
  "early_env = demo_env\<lparr>local_time := (\<lambda>_ _. Returns (8, 59, 59, 999999))\<rparr>"

definition opening_env :: env where
  "opening_env = demo_env\<lparr>local_time := (\<lambda>_ _. Returns (9, 0, 0, 0))\<rparr>"

definition night_env :: env where
  "night_env = demo_env\<lparr>local_time := (\<lambda>_ _. Returns (23, 30, 0, 0))\<rparr>"

definition night_config :: config where
  "night_config = demo_config\<lparr>time_range_start := Some (22, 0), time_range_end := Some (6, 0)\<rparr>"

text \<open>The number of posts the usage dictionary records:
  \<^verbatim>\<open>daily_usage.get('posts', 0)\<close>.\<close>

definition posts_used :: "bot \<Rightarrow> int" where
  "posts_used s = dict_get (quota_usage s) ''posts'' 0"

text \<open>The daily limit of five posts is used up.\<close>

definition used_up_bot :: bot where
  "used_up_bot = fresh_bot\<lparr>quota_usage := [(''posts'', 5), (''reads'', 0), (''likes'', 0)]\<rparr>"

section \<open>Observations on the log of platform calls\<close>

text \<open>The identifiers a like was issued for, and the identifiers a reply was posted
  to, in the order of the calls.\<close>

fun like_target :: "gateway_call \<Rightarrow> string list" where
  "like_target (Like r) = [r]"
| "like_target _ = []"

fun reply_target :: "gateway_call \<Rightarrow> string list" where
  "reply_target (CreateTweet _ (Some r)) = [r]"
| "reply_target _ = []"

definition liked_ids :: "gateway_call list \<Rightarrow> string list" where
  "liked_ids cs = concat (map like_target cs)"

definition replied_ids :: "gateway_call list \<Rightarrow> string list" where
  "replied_ids cs = concat (map reply_target cs)"

text \<open>What a call into the \<^verbatim>\<open>TwitterAPIManager\<close> leaves alone: everything but the
  quota counters, the tick and the log.\<close>

definition api_frame :: "bot \<Rightarrow> bot \<Rightarrow> bool" where
  "api_frame s s' =
     (bot_user_id s' = bot_user_id s \<and> supabase s' = supabase s
      \<and> replies_table s' = replies_table s \<and> tweets_table s' = tweets_table s
      \<and> processed_replies s' = processed_replies s
      \<and> startup_check_done s' = startup_check_done s
      \<and> conversation_replies s' = conversation_replies s
      \<and> last_check s' = last_check s \<and> job_stats s' = job_stats s)"

text \<open>The lookup of the tweet returns a response without \<^verbatim>\<open>data\<close>, as for a tweet
  that is deleted or protected.\<close>

definition no_data_env :: env where
  "no_data_env = demo_env\<lparr>get_tweet := (\<lambda>_ _. Returns None)\<rparr>"

text \<open>The reply identifiers of the rows of the \<^verbatim>\<open>replies\<close> table, in table order.\<close>

definition stored_ids :: "bot \<Rightarrow> string list" where
  "stored_ids s = map (\<lambda>row. reply_id (snd row)) (replies_table s)"

text \<open>What the handling of one reply leaves alone once the reply is saved, and what it
  may add to the log: at most one like and at most one answer, both for that reply.\<close>

definition store_frame :: "bot \<Rightarrow> bot \<Rightarrow> bool" where
  "store_frame s s' =
     (bot_user_id s' = bot_user_id s \<and> supabase s' = supabase s
      \<and> stored_ids s' = stored_ids s \<and> tweets_table s' = tweets_table s
      \<and> processed_replies s' = processed_replies s
      \<and> startup_check_done s' = startup_check_done s)"

definition engaged :: "string \<Rightarrow> bot \<Rightarrow> bot \<Rightarrow> bool" where
  "engaged r s s' =
     ((liked_ids (calls s') = liked_ids (calls s)
        \<or> liked_ids (calls s') = liked_ids (calls s) @ [r])
      \<and> (replied_ids (calls s') = replied_ids (calls s)
        \<or> replied_ids (calls s') = replied_ids (calls s) @ [r]))"

section \<open>The two-tier filter in the words of the specification\<close>


definition page_reply :: "string \<Rightarrow> Reply" where
  "page_reply rid = \<lparr>reply_id = rid, original_tweet_id = ''t1'', author_id = Some ''42'',
                      content = ''hi'', created_at = 0, liked = False\<rparr>"

text \<open>The cache holds \<open>r1\<close> and \<open>r2\<close>, the table holds \<open>r2\<close> and \<open>r3\<close>.\<close>

definition dedup_bot :: bot where
  "dedup_bot =
     fresh_bot\<lparr>processed_replies := [''r1'', ''r2''],
               replies_table := [(''row-2'', page_reply ''r2''), (''row-3'', page_reply ''r3'')]\<rparr>"



section \<open>Runs of the reply handler\<close>

text \<open>A run is a sequence of polling cycles and of clearings of the processed cache
  (\<^verbatim>\<open>reset_processed_cache\<close>, which is what a restart does to the cache).\<close>

datatype handler_event = CheckReplies | ClearCache

fun run_handler :: "env \<Rightarrow> config \<Rightarrow> handler_event list \<Rightarrow> bot \<Rightarrow> bot" where
  "run_handler e cfg [] s = s"
| "run_handler e cfg (CheckReplies # es) s =
     run_handler e cfg es (snd (check_and_handle_replies e cfg s))"
| "run_handler e cfg (ClearCache # es) s = run_handler e cfg es (reset_processed_cache s)"

text \<open>No reply was liked twice or answered twice, and every reply that was liked or
  answered is in the table.\<close>

definition handled_once :: "bot \<Rightarrow> bool" where
  "handled_once s =
     (distinct (liked_ids (calls s)) \<and> distinct (replied_ids (calls s))
      \<and> set (liked_ids (calls s)) \<subseteq> set (stored_ids s)
      \<and> set (replied_ids (calls s)) \<subseteq> set (stored_ids s))"

text \<open>The identifiers the handler knows: those in the cache and those in the table.\<close>

definition known :: "bot \<Rightarrow> string set" where
  "known s = set (processed_replies s) \<union> set (stored_ids s)"

text \<open>From \<open>s\<close> to \<open>s'\<close> the log has grown by likes and answers for replies that were not
  known in \<open>s\<close>, each at most once, and all of them are in the table of \<open>s'\<close>.\<close>

definition progress :: "bot \<Rightarrow> bot \<Rightarrow> bool" where
  "progress s s' =
     (\<exists>ls rs. liked_ids (calls s') = liked_ids (calls s) @ ls
        \<and> replied_ids (calls s') = replied_ids (calls s) @ rs
        \<and> distinct ls \<and> distinct rs
        \<and> set ls \<inter> known s = {} \<and> set rs \<inter> known s = {}
        \<and> set ls \<subseteq> set (stored_ids s') \<and> set rs \<subseteq> set (stored_ids s')
        \<and> set (stored_ids s) \<subseteq> set (stored_ids s'))"

text \<open>The bot owns the tweet \<open>t1\<close>; the platform finds the replies \<open>r1\<close> to \<open>r4\<close> to
  it, at every poll.\<close>

definition found_reply :: "string \<Rightarrow> raw_tweet" where
  "found_reply rid = \<lparr>tw_id = rid, tw_conversation_id = Some ''t1'', tw_author_id = Some ''42'',
                       tw_text = ''hi'', tw_created_at = Some 0\<rparr>"

definition page_env :: env where
  "page_env = demo_env\<lparr>search_recent_tweets :=
      (\<lambda>_ tid _. if tid = ''t1''
                   then Returns [found_reply ''r1'', found_reply ''r2'', found_reply ''r3'',
                                 found_reply ''r4'']
                   else Returns [])\<rparr>"

definition busy_bot :: bot where
  "busy_bot = dedup_bot\<lparr>tweets_table :=
      [(''row-t1'', \<lparr>tweet_id = ''t1'', tweet_content = ''hello'', image_url = None,
                     posted_at = 0\<rparr>)]\<rparr>"

text \<open>After a restart: the reply \<open>r4\<close> is in the table, liked, and the cache and the
  conversation counters are empty.  The platform finds \<open>r4\<close> under \<open>t1\<close>.\<close>

definition single_env :: env where
  "single_env = demo_env\<lparr>search_recent_tweets :=
      (\<lambda>_ tid _. if tid = ''t1'' then Returns [found_reply ''r4''] else Returns [])\<rparr>"

definition persisted_bot :: bot where
  "persisted_bot =
     fresh_bot\<lparr>replies_table := [(''row-4'', (page_reply ''r4'')\<lparr>liked := True\<rparr>)],
               tweets_table :=
                 [(''row-t1'', \<lparr>tweet_id = ''t1'', tweet_content = ''hello'', image_url = None,
                                posted_at = 0\<rparr>)]\<rparr>"

text \<open>The bot owns the tweet \<open>t1\<close> and has not seen any reply yet; up to three
  answers are allowed in a conversation.  The platform finds \<open>r4\<close> under \<open>t1\<close> at
  every poll, and from the tenth consultation on the batch existence query raises.\<close>

definition owner_bot :: bot where
  "owner_bot =
     fresh_bot\<lparr>tweets_table :=
                 [(''row-t1'', \<lparr>tweet_id = ''t1'', tweet_content = ''hello'', image_url = None,
                                posted_at = 0\<rparr>)]\<rparr>"

definition chatty_config :: config where
  "chatty_config = demo_config\<lparr>max_replies_per_conversation := 3\<rparr>"

definition flaky_env :: env where
  "flaky_env = single_env\<lparr>existing_ids_query_raises := (\<lambda>t. 10 \<le> t)\<rparr>"

text \<open>Numeric identifiers \<open>1\<close>, \<open>11\<close>, \<open>111\<close>, ...: pairwise different.\<close>

definition numbered_id :: "nat \<Rightarrow> string" where
  "numbered_id n = replicate (Suc n) (CHR ''1'')"

text \<open>The cap is one answer for each conversation, and 100 conversations have been
  answered once each; the bot owns one more tweet, \<open>numbered_id 100\<close>.  The platform
  finds the reply \<open>a1\<close> to that tweet at first, and the replies \<open>a1\<close> and \<open>a2\<close> from
  the tenth consultation on.\<close>

definition crowded_bot :: bot where
  "crowded_bot =
     fresh_bot\<lparr>conversation_replies := map (\<lambda>n. (numbered_id n, 1)) [0..<100],
               tweets_table :=
                 [(''row-t'', \<lparr>tweet_id = numbered_id 100, tweet_content = ''hello'',
                               image_url = None, posted_at = 0\<rparr>)]\<rparr>"

definition thread_reply :: "string \<Rightarrow> raw_tweet" where
  "thread_reply rid = \<lparr>tw_id = rid, tw_conversation_id = Some (numbered_id 100),
                        tw_author_id = Some ''42'', tw_text = ''hi'', tw_created_at = Some 0\<rparr>"

definition growing_env :: env where
  "growing_env = demo_env\<lparr>search_recent_tweets :=
      (\<lambda>t tid _. if tid = numbered_id 100
                   then (if t < 10 then Returns [thread_reply ''a1'']
                         else Returns [thread_reply ''a1'', thread_reply ''a2''])
                   else Returns [])\<rparr>"

text \<open>A cache of 2000 identifiers.\<close>

definition big_cache_bot :: bot where
  "big_cache_bot = fresh_bot\<lparr>processed_replies := map numbered_id [0..<2000]\<rparr>"

text \<open>The set is iterated in the reverse of the order of insertion.\<close>

definition reversing_env :: env where
  "reversing_env = demo_env\<lparr>set_iteration := rev\<rparr>"



section \<open>save_reply on a stored reply\<close>

text \<open>
  C10.  When a row with the reply's identifier is already in the table and the
  incoming \<^verbatim>\<open>Reply\<close> has \<^verbatim>\<open>liked = False\<close>, \<^verbatim>\<open>save_reply\<close> returns the row identifier
  of the first such row and the whole state, the table included, is what it was:
  a stored \<^verbatim>\<open>liked = True\<close> is never reset.  The table is written for a stored
  reply only when the incoming \<^verbatim>\<open>Reply\<close> has \<^verbatim>\<open>liked = True\<close>.
\<close>

theorem save_reply_existing_frame:
  assumes "reply_exists (reply_id reply) s"
  shows "(\<not> liked reply \<longrightarrow>
            (\<exists>row \<in> set (replies_table s).
               reply_id (snd row) = reply_id reply \<and>
               save_reply e reply s = (Some (fst row), s)))
         \<and> (replies_table (snd (save_reply e reply s)) \<noteq> replies_table s \<longrightarrow> liked reply)"
proof -
  from assms have av: "supabase s"
    and ex: "\<exists>r \<in> set (replies_table s). reply_id (snd r) = reply_id reply"
    by (auto simp: reply_exists_def split: if_splits)
  from ex have "filter (\<lambda>row. reply_id (snd row) = reply_id reply) (replies_table s) \<noteq> []"
    by (auto simp: filter_empty_conv)
  then obtain row more_rows
    where f: "filter (\<lambda>row. reply_id (snd row) = reply_id reply) (replies_table s) = row # more_rows"
    by (cases "filter (\<lambda>row. reply_id (snd row) = reply_id reply) (replies_table s)") auto
  have "row \<in> set (filter (\<lambda>row. reply_id (snd row) = reply_id reply) (replies_table s))"
    by (simp add: f)
  then have mem: "row \<in> set (replies_table s)" and rid: "reply_id (snd row) = reply_id reply"
    by auto
  have unliked: "\<not> liked reply \<Longrightarrow> save_reply e reply s = (Some (fst row), s)"
    using av f by (simp add: save_reply_def)
  have written: "replies_table (snd (save_reply e reply s)) \<noteq> replies_table s \<Longrightarrow> liked reply"
    using av f by (simp add: save_reply_def split: if_splits)
  show ?thesis using mem rid unliked written by blast
qed

theorem save_reply_existing_frame_witness:
  "reply_exists ''r1'' bot_with_stored_reply
   \<and> save_reply demo_env (stored_reply\<lparr>liked := False\<rparr>) bot_with_stored_reply
       = (Some ''row-1'', bot_with_stored_reply)
   \<and> liked (snd (hd (replies_table
        (snd (save_reply demo_env (stored_reply\<lparr>liked := False\<rparr>) bot_with_stored_reply)))))"
proof -
  have ex: "reply_exists (reply_id (stored_reply\<lparr>liked := False\<rparr>)) bot_with_stored_reply"
    by (simp add: reply_exists_def bot_with_stored_reply_def stored_reply_def)
  from save_reply_existing_frame [OF ex, of demo_env]
  have "save_reply demo_env (stored_reply\<lparr>liked := False\<rparr>) bot_with_stored_reply
          = (Some ''row-1'', bot_with_stored_reply)"
    by (simp add: bot_with_stored_reply_def stored_reply_def)
  then show ?thesis using ex
    by (simp add: bot_with_stored_reply_def stored_reply_def)
qed

lemma dict_get_dict_set:
  "dict_get (dict_set d k v) k' dflt = (if k' = k then v else dict_get d k' dflt)"
  by (induction d) (auto simp: dict_get_def)

lemma timedelta_days_ge_1: "(1 \<le> timedelta_days d) = (86400000000 \<le> d)"
proof -
  have "(0 < d div 86400000000) = (86400000000 \<le> d)"
    by (rule pos_imp_zdiv_pos_iff) simp
  then show ?thesis unfolding timedelta_days_def by linarith
qed

section \<open>Quota counters and the day boundary\<close>

text \<open>
  C4 (as amended).  Every evaluation of \<^verbatim>\<open>_check_quota\<close> first compares the clock with
  the last reset.  When at least 24 hours have passed, all three counters are zeroed
  and the reset timestamp becomes the current time in the same call, and the answer
  is the one the zeroed counters give.  When less than 24 hours have passed the
  counters and the timestamp stay as they are, whether or not midnight lies in
  between.
\<close>

theorem check_quota_reset_after_24h:
  "(86400000000 \<le> utcnow e (tick s) - last_quota_reset s \<longrightarrow>
      quota_usage (snd (check_quota e cfg operation n s)) = [(''posts'', 0), (''reads'', 0), (''likes'', 0)]
    \<and> last_quota_reset (snd (check_quota e cfg operation n s)) = utcnow e (tick s)
    \<and> fst (check_quota e cfg operation n s)
        = fst (check_quota e cfg operation n
                (s\<lparr>quota_usage := [(''posts'', 0), (''reads'', 0), (''likes'', 0)],
                   last_quota_reset := utcnow e (tick s)\<rparr>)))
   \<and> (utcnow e (tick s) - last_quota_reset s < 86400000000 \<longrightarrow>
      quota_usage (snd (check_quota e cfg operation n s)) = quota_usage s
    \<and> last_quota_reset (snd (check_quota e cfg operation n s)) = last_quota_reset s)"
  by (simp add: check_quota_def Let_def consult_def timedelta_days_ge_1)

theorem check_quota_reset_after_24h_witness:
  "quota_usage (snd (check_quota next_day_env demo_config ''posts'' 1 late_reset_bot))
     = [(''posts'', 0), (''reads'', 0), (''likes'', 0)]
   \<and> fst (check_quota next_day_env demo_config ''posts'' 1 late_reset_bot)
   \<and> quota_usage (snd (check_quota after_midnight_env demo_config ''posts'' 1 late_reset_bot))
     = [(''posts'', 5), (''reads'', 0), (''likes'', 0)]"
proof -
  have a: "86400000000 \<le> utcnow next_day_env (tick late_reset_bot) - last_quota_reset late_reset_bot"
    by (simp add: next_day_env_def demo_env_def late_reset_bot_def fresh_bot_def)
  have b: "utcnow after_midnight_env (tick late_reset_bot) - last_quota_reset late_reset_bot < 86400000000"
    by (simp add: after_midnight_env_def demo_env_def late_reset_bot_def fresh_bot_def)
  have c: "fst (check_quota next_day_env demo_config ''posts'' 1
                (late_reset_bot\<lparr>quota_usage := [(''posts'', 0), (''reads'', 0), (''likes'', 0)],
                   last_quota_reset := utcnow next_day_env (tick late_reset_bot)\<rparr>))"
    by (simp add: check_quota_def Let_def consult_def timedelta_days_def dict_get_def
        demo_config_def next_day_env_def demo_env_def late_reset_bot_def fresh_bot_def)
  show ?thesis
    using check_quota_reset_after_24h [of next_day_env late_reset_bot demo_config "''posts''" 1]
      check_quota_reset_after_24h [of after_midnight_env late_reset_bot demo_config "''posts''" 1]
      a b c
    by (simp add: late_reset_bot_def fresh_bot_def)
qed

text \<open>
  C4 as stated fails: the counters were reset at 23:00, the check runs at 00:30 of
  the next day, and it is refused on the five posts of the previous day; nothing is
  reset.
\<close>

theorem check_quota_calendar_day_counterexample:
  "last_quota_reset late_reset_bot div 86400000000
     < utcnow after_midnight_env (tick late_reset_bot) div 86400000000
   \<and> check_quota after_midnight_env demo_config ''posts'' 1 late_reset_bot
     = (False, consult late_reset_bot)"
  by (simp add: check_quota_def Let_def consult_def timedelta_days_def dict_get_def
      demo_config_def after_midnight_env_def demo_env_def late_reset_bot_def fresh_bot_def)

section \<open>The posting window\<close>

lemma lex_le:
  fixes a1 a2 b1 b2 k :: nat
  assumes "b1 < k" "b2 < k"
  shows "(a1 < a2 \<or> (a1 = a2 \<and> b1 \<le> b2)) = (a1 * k + b1 \<le> a2 * k + b2)"
proof (cases "a1 < a2")
  case True
  then have "Suc a1 \<le> a2" by simp
  then have "Suc a1 * k \<le> a2 * k" by (rule mult_le_mono1)
  then have "a1 * k + b1 \<le> a2 * k + b2" using assms by simp
  with True show ?thesis by simp
next
  case False
  show ?thesis
  proof (cases "a1 = a2")
    case True
    then show ?thesis by simp
  next
    case False
    with \<open>\<not> a1 < a2\<close> have "Suc a2 \<le> a1" by simp
    then have "Suc a2 * k \<le> a1 * k" by (rule mult_le_mono1)
    then have "a2 * k + b2 < a1 * k + b1" using assms by simp
    with False \<open>\<not> a1 < a2\<close> show ?thesis by simp
  qed
qed

lemma time_le_micros:
  assumes "valid_time a" "valid_time b"
  shows "time_le a b = (micros a \<le> micros b)"
proof -
  obtain h1 m1 s1 u1 where a: "a = (h1, m1, s1, u1)" by (cases a) auto
  obtain h2 m2 s2 u2 where b: "b = (h2, m2, s2, u2)" by (cases b) auto
  from assms have bounds: "m1 < 60" "s1 < 60" "u1 < 1000000" "m2 < 60" "s2 < 60" "u2 < 1000000"
    by (simp_all add: a b valid_time_def)
  define x1 where "x1 = s1 * 1000000 + u1"
  define x2 where "x2 = s2 * 1000000 + u2"
  define y1 where "y1 = m1 * 60000000 + x1"
  define y2 where "y2 = m2 * 60000000 + x2"
  have x: "x1 < 60000000" "x2 < 60000000" using bounds by (simp_all add: x1_def x2_def)
  have y: "y1 < 3600000000" "y2 < 3600000000" using bounds x by (simp_all add: y1_def y2_def)
  have l1: "(s1 < s2 \<or> (s1 = s2 \<and> u1 \<le> u2)) = (x1 \<le> x2)"
    unfolding x1_def x2_def using bounds by (intro lex_le) simp_all
  have l2: "(m1 < m2 \<or> (m1 = m2 \<and> x1 \<le> x2)) = (y1 \<le> y2)"
    unfolding y1_def y2_def using x by (intro lex_le) simp_all
  have l3: "(h1 < h2 \<or> (h1 = h2 \<and> y1 \<le> y2)) = (h1 * 3600000000 + y1 \<le> h2 * 3600000000 + y2)"
    using y by (intro lex_le) simp_all
  have m1: "micros a = h1 * 3600000000 + y1"
    by (simp add: a micros_def y1_def x1_def)
  have m2: "micros b = h2 * 3600000000 + y2"
    by (simp add: b micros_def y2_def x2_def)
  show ?thesis unfolding m1 m2
    by (simp add: a b l1 l2 l3)
qed

lemma is_in_posting_hours_spec:
  assumes "local_time e (tick s) (timezone cfg) = Returns now"
    and "time_range_start cfg = Some (sh, sm)" "time_range_end cfg = Some (eh, em)"
    and "sm < 60" "em < 60" "valid_time now"
  shows "is_in_posting_hours e cfg s =
           (spec_in_window (micros (sh, sm, 0, 0)) (micros (eh, em, 0, 0)) (micros now),
            consult s)"
proof -
  have vs: "valid_time (sh, sm, 0, 0)" and ve: "valid_time (eh, em, 0, 0)"
    using assms by (simp_all add: valid_time_def)
  show ?thesis
    using assms(1,2,3)
    by (simp add: is_in_posting_hours_def Let_def spec_in_window_def
        time_le_micros [OF vs ve] time_le_micros [OF vs assms(6)] time_le_micros [OF assms(6) ve]
        del: time_le.simps)
qed

text \<open>With a time zone \<^verbatim>\<open>pytz\<close> does not know, or a bound that does not parse, the
  answer is \<^verbatim>\<open>False\<close> at every time of day.\<close>

lemma is_in_posting_hours_raises:
  assumes "local_time e (tick s) (timezone cfg) = Raises
           \<or> time_range_start cfg = None \<or> time_range_end cfg = None"
  shows "is_in_posting_hours e cfg s = (False, consult s)"
  using assms
  by (auto simp: is_in_posting_hours_def Let_def split: api.splits option.splits prod.splits)

text \<open>The window check at 08:59:59.999999 and at 09:00 with the window 09:00 to 21:00,
  at 23:30 and at 12:00 with the window 22:00 to 06:00, and with a clock that raises.\<close>

lemma is_in_posting_hours_examples:
  "fst (is_in_posting_hours early_env demo_config s) = False"
  "fst (is_in_posting_hours opening_env demo_config s) = True"
  "fst (is_in_posting_hours night_env night_config s) = True"
  "fst (is_in_posting_hours demo_env night_config s) = False"
  "fst (is_in_posting_hours (demo_env\<lparr>local_time := (\<lambda>_ _. Raises)\<rparr>) demo_config s) = False"
  by (simp_all add: is_in_posting_hours_def Let_def early_env_def opening_env_def night_env_def
      night_config_def demo_env_def demo_config_def)

lemma check_quota_frame:
  "calls (snd (check_quota e cfg operation n s)) = calls s"
  "tick (snd (check_quota e cfg operation n s)) = Suc (tick s)"
  "job_stats (snd (check_quota e cfg operation n s)) = job_stats s"
  "supabase (snd (check_quota e cfg operation n s)) = supabase s"
  "tweets_table (snd (check_quota e cfg operation n s)) = tweets_table s"
  by (simp_all add: check_quota_def Let_def consult_def)

text \<open>The first statement of the posting job raises: \<^verbatim>\<open>EventTypes\<close> has no member
  \<^verbatim>\<open>TWEET_GENERATION_STARTED\<close>.  Whatever the clock, the configuration and the state,
  a firing counts one failure and does nothing else.\<close>

lemma EventTypes_undefined:
  "EventTypes ''TWEET_GENERATION_STARTED'' = None"
  "EventTypes ''TWEET_GENERATION_FAILED'' = None"
  "EventTypes ''API_ERROR'' = Some ''api.error''"
  by (simp_all add: EventTypes_def)

lemma generate_and_post_job_raises: "generate_and_post_job e cfg s = count_failed s"
  by (simp add: generate_and_post_job_def generate_and_post_attempt_def publish_def
      EventTypes_undefined)

lemma count_failed_fields:
  "skipped (job_stats (count_failed s)) = skipped (job_stats s)"
  "successful (job_stats (count_failed s)) = successful (job_stats s)"
  "failed (job_stats (count_failed s)) = failed (job_stats s) + 1"
  "calls (count_failed s) = calls s"
  "tick (count_failed s) = tick s"
  "quota_usage (count_failed s) = quota_usage s"
  "tweets_table (count_failed s) = tweets_table s"
  by (simp_all add: count_failed_def)

text \<open>
  C6.  The posting job never reaches its window check.  Its first statement publishes
  an event of the type \<^verbatim>\<open>EventTypes.TWEET_GENERATION_STARTED\<close>, a name the class does
  not define, so the firing ends in the \<^verbatim>\<open>except\<close> branch and is counted as failed.
  With the window 09:00 to 21:00, the firing one microsecond before 09:00 is counted
  as failed and not as skipped, and the firing at 09:00 sharp is counted as failed
  too and nothing is submitted to the platform; the window check on its own tells the
  two times apart.  At every firing, whatever the time: no skip is counted, one
  failure is counted, and the platform client is not called.
\<close>

theorem posting_window_job_fails:
  "job_stats (generate_and_post_job early_env demo_config fresh_bot)
     = \<lparr>successful = 0, failed = 1, skipped = 0\<rparr>
   \<and> job_stats (generate_and_post_job opening_env demo_config fresh_bot)
     = \<lparr>successful = 0, failed = 1, skipped = 0\<rparr>
   \<and> calls (generate_and_post_job opening_env demo_config fresh_bot) = []
   \<and> fst (is_in_posting_hours early_env demo_config fresh_bot) = False
   \<and> fst (is_in_posting_hours opening_env demo_config fresh_bot) = True
   \<and> skipped (job_stats (generate_and_post_job e cfg s)) = skipped (job_stats s)
   \<and> failed (job_stats (generate_and_post_job e cfg s)) = failed (job_stats s) + 1
   \<and> calls (generate_and_post_job e cfg s) = calls s
   \<and> tick (generate_and_post_job e cfg s) = tick s"
proof -
  have concrete:
    "job_stats (count_failed fresh_bot) = \<lparr>successful = 0, failed = 1, skipped = 0\<rparr>"
    "calls fresh_bot = []"
    by (simp_all add: count_failed_def fresh_bot_def)
  have window:
    "fst (is_in_posting_hours early_env demo_config fresh_bot) = False"
    "fst (is_in_posting_hours opening_env demo_config fresh_bot) = True"
    by (simp_all add: is_in_posting_hours_def Let_def early_env_def opening_env_def
        demo_env_def demo_config_def)
  show ?thesis
    by (simp add: generate_and_post_job_raises concrete window count_failed_fields)
qed

section \<open>Quota enforcement of the posting job\<close>

text \<open>What \<^verbatim>\<open>post_tweet\<close> does to the counter of posts between two resets: it refuses a
  post that would exceed the limit, and it counts a post only when the platform has
  returned an identifier.\<close>

lemma check_quota_posts_no_reset:
  assumes "utcnow e (tick s) - last_quota_reset s < 86400000000"
  shows "check_quota e cfg ''posts'' 1 s
           = (\<not> (0 < posts_per_day cfg \<and> posts_per_day cfg < posts_used s + 1), consult s)"
  using assms
  by (simp add: check_quota_def Let_def consult_def posts_used_def timedelta_days_ge_1)

lemma gateway_quota:
  "quota_usage (gateway c s) = quota_usage s"
  "last_quota_reset (gateway c s) = last_quota_reset s"
  "job_stats (gateway c s) = job_stats s"
  "posts_used (gateway c s) = posts_used s"
  by (simp_all add: gateway_def posts_used_def)

lemma consult_quota:
  "quota_usage (consult s) = quota_usage s"
  "last_quota_reset (consult s) = last_quota_reset s"
  "job_stats (consult s) = job_stats s"
  "posts_used (consult s) = posts_used s"
  by (simp_all add: consult_def posts_used_def)

lemma update_quota_posts:
  "posts_used (update_quota ''posts'' 1 s) = posts_used s + 1"
  "last_quota_reset (update_quota ''posts'' 1 s) = last_quota_reset s"
  "job_stats (update_quota ''posts'' 1 s) = job_stats s"
  by (simp_all add: update_quota_def posts_used_def dict_get_dict_set)

lemma post_tweet_quota:
  assumes nr: "utcnow e (tick s) - last_quota_reset s < 86400000000"
    and pt: "post_tweet e cfg body img rt s = (r, s')"
  shows "last_quota_reset s' = last_quota_reset s"
    and "job_stats s' = job_stats s"
    and "r = None \<Longrightarrow> posts_used s' = posts_used s"
    and "r \<noteq> None \<Longrightarrow> posts_used s' = posts_used s + 1"
    and "r \<noteq> None \<Longrightarrow> 0 < posts_per_day cfg \<Longrightarrow> posts_used s + 1 \<le> posts_per_day cfg"
proof -
  define s2 where "s2 = (case img of None \<Rightarrow> consult s
                         | Some url \<Rightarrow> if url = [] then consult s
                                       else snd (upload_media e url (consult s)))"
  define target where "target = (if truthy rt then rt else None)"
  define s3 where "s3 = gateway (CreateTweet body target) s2"
  have s2: "last_quota_reset s2 = last_quota_reset s" "job_stats s2 = job_stats s"
    "posts_used s2 = posts_used s"
    by (simp_all add: s2_def upload_media_def gateway_quota consult_quota split: option.splits)
  have s3: "last_quota_reset s3 = last_quota_reset s" "job_stats s3 = job_stats s"
    "posts_used s3 = posts_used s"
    by (simp_all add: s3_def gateway_quota s2)
  have eq: "post_tweet e cfg body img rt s =
      (if 0 < posts_per_day cfg \<and> posts_per_day cfg < posts_used s + 1 then (None, consult s)
       else case create_tweet e (tick s2) body target of
              Raises \<Rightarrow> (None, s3)
            | Returns new_id \<Rightarrow>
                if truthy new_id then (new_id, update_quota ''posts'' 1 s3) else (None, s3))"
    unfolding s3_def s2_def target_def
    by (simp add: post_tweet_def check_quota_posts_no_reset [OF nr] Let_def split: bool.splits)
  note facts = update_quota_posts consult_quota
  show "last_quota_reset s' = last_quota_reset s"
    using pt s3 unfolding eq by (auto simp: facts split: api.splits if_splits)
  show "job_stats s' = job_stats s"
    using pt s3 unfolding eq by (auto simp: facts split: api.splits if_splits)
  show "posts_used s' = posts_used s" if "r = None"
    using pt s3 that unfolding eq by (auto simp: facts truthy_def split: api.splits if_splits)
  show "posts_used s' = posts_used s + 1" if "r \<noteq> None"
    using pt s3 that unfolding eq by (auto simp: facts split: api.splits if_splits)
  show "posts_used s + 1 \<le> posts_per_day cfg" if "r \<noteq> None" "0 < posts_per_day cfg"
    using pt that unfolding eq by (auto split: api.splits if_splits)
qed

lemma check_posting_quota_iff:
  "0 < posts_per_day cfg \<Longrightarrow>
   check_posting_quota (get_quota_status cfg s) = (posts_used s < posts_per_day cfg)"
  by (auto simp: check_posting_quota_def get_quota_status_def posts_used_def)

lemma run_jobs_raises:
  "job_stats (run_jobs e cfg n s)
     = (job_stats s)\<lparr>failed := failed (job_stats s) + int n\<rparr>
   \<and> (run_jobs e cfg n s)\<lparr>job_stats := job_stats s\<rparr> = s"
proof (induction n arbitrary: s)
  case 0
  then show ?case by simp
next
  case (Suc n)
  have a: "job_stats (count_failed s) = (job_stats s)\<lparr>failed := failed (job_stats s) + 1\<rparr>"
    and b: "(count_failed s)\<lparr>job_stats := job_stats s\<rparr> = s"
    by (simp_all add: count_failed_def)
  have "(run_jobs e cfg n (count_failed s))\<lparr>job_stats := job_stats s\<rparr>
          = ((run_jobs e cfg n (count_failed s))\<lparr>job_stats := job_stats (count_failed s)\<rparr>)
              \<lparr>job_stats := job_stats s\<rparr>"
    by simp
  also have "\<dots> = (count_failed s)\<lparr>job_stats := job_stats s\<rparr>"
    using Suc.IH [of "count_failed s"] by simp
  finally have frame: "(run_jobs e cfg n (count_failed s))\<lparr>job_stats := job_stats s\<rparr> = s"
    using b by simp
  show ?case
    using Suc.IH [of "count_failed s"] frame
    by (simp add: generate_and_post_job_raises a)
qed

text \<open>
  C3.  The posting job never reaches its quota check.  Every firing raises at the
  first statement of the job, which publishes an event of a type the class
  \<^verbatim>\<open>EventTypes\<close> does not define, and is counted as failed.  With five posts used of
  a limit of five, where \<^verbatim>\<open>_check_posting_quota\<close> refuses, the firing is counted as
  failed and not as skipped.  After any number \<open>n\<close> of firings the counter of skips
  and the counter of successes are what they were, the counter of failures has grown
  by \<open>n\<close>, the usage counter of posts is unchanged and the platform client has not
  been called.
\<close>

theorem quota_enforcement_job_fails:
  "check_posting_quota (get_quota_status demo_config used_up_bot) = False
   \<and> job_stats (generate_and_post_job demo_env demo_config used_up_bot)
     = \<lparr>successful = 0, failed = 1, skipped = 0\<rparr>
   \<and> skipped (job_stats (run_jobs e cfg n s)) = skipped (job_stats s)
   \<and> successful (job_stats (run_jobs e cfg n s)) = successful (job_stats s)
   \<and> failed (job_stats (run_jobs e cfg n s)) = failed (job_stats s) + int n
   \<and> posts_used (run_jobs e cfg n s) = posts_used s
   \<and> calls (run_jobs e cfg n s) = calls s"
proof -
  have refused: "check_posting_quota (get_quota_status demo_config used_up_bot) = False"
    by (simp add: check_posting_quota_def get_quota_status_def demo_config_def used_up_bot_def
        fresh_bot_def dict_get_def)
  have one: "job_stats (generate_and_post_job demo_env demo_config used_up_bot)
               = \<lparr>successful = 0, failed = 1, skipped = 0\<rparr>"
    by (simp add: generate_and_post_job_raises count_failed_def used_up_bot_def fresh_bot_def)
  note run = run_jobs_raises [of e cfg n s]
  have frame: "posts_used (run_jobs e cfg n s) = posts_used s"
    "calls (run_jobs e cfg n s) = calls s"
  proof -
    have "posts_used ((run_jobs e cfg n s)\<lparr>job_stats := job_stats s\<rparr>) = posts_used s"
      "calls ((run_jobs e cfg n s)\<lparr>job_stats := job_stats s\<rparr>) = calls s"
      using run by simp_all
    then show "posts_used (run_jobs e cfg n s) = posts_used s"
      "calls (run_jobs e cfg n s) = calls s"
      by (simp_all add: posts_used_def)
  qed
  show ?thesis using refused one run frame by simp
qed

section \<open>Self-reply exclusion\<close>

lemma liked_ids_simps:
  "liked_ids [] = []"
  "liked_ids (cs @ ds) = liked_ids cs @ liked_ids ds"
  "liked_ids [Like r] = [r]"
  "liked_ids [GetTweet t] = []"
  "liked_ids [GetMe] = []"
  "liked_ids [SearchRecent t n] = []"
  "liked_ids [CreateTweet b rt] = []"
  "liked_ids [MediaUpload u] = []"
  "liked_ids [GetUser a] = []"
  by (simp_all add: liked_ids_def)

lemma replied_ids_simps:
  "replied_ids [] = []"
  "replied_ids (cs @ ds) = replied_ids cs @ replied_ids ds"
  "replied_ids [Like r] = []"
  "replied_ids [GetTweet t] = []"
  "replied_ids [GetMe] = []"
  "replied_ids [SearchRecent t n] = []"
  "replied_ids [CreateTweet b (Some r)] = [r]"
  "replied_ids [CreateTweet b None] = []"
  "replied_ids [MediaUpload u] = []"
  "replied_ids [GetUser a] = []"
  by (simp_all add: replied_ids_def)

lemma api_frame_refl: "api_frame s s"
  by (simp add: api_frame_def)

lemma api_frame_trans: "api_frame s s' \<Longrightarrow> api_frame s' s'' \<Longrightarrow> api_frame s s''"
  by (simp add: api_frame_def)

lemma api_frame_basic:
  "api_frame s (consult s)" "api_frame s (gateway c s)" "api_frame s (update_quota op n s)"
  by (simp_all add: api_frame_def consult_def gateway_def update_quota_def)

lemma check_quota_api_frame: "api_frame s (snd (check_quota e cfg op n s))"
  by (simp add: check_quota_def Let_def api_frame_def consult_def)

text \<open>With the bot's own identifier known, no reply that \<^verbatim>\<open>get_tweet_replies\<close> returns
  is authored by the bot; and \<^verbatim>\<open>like_tweet\<close> issues no like when the lookup of the
  tweet raises or names the bot as the author.\<close>

lemma collect_replies_not_self:
  assumes "truthy bot_id"
  shows "\<forall>r \<in> set (collect_replies bot_id tid now tweets). author_id r \<noteq> bot_id"
  using assms by (induction tweets) auto

lemma get_tweet_replies_not_self:
  assumes "truthy (bot_user_id s)"
  shows "\<forall>r \<in> set (fst (get_tweet_replies e cfg tid n s)). author_id r \<noteq> bot_user_id s"
proof -
  obtain b s1 where c: "check_quota e cfg ''reads'' n s = (b, s1)"
    by (cases "check_quota e cfg ''reads'' n s") auto
  have "bot_user_id s1 = bot_user_id s"
    using check_quota_api_frame [of s e cfg "''reads''" n] c by (simp add: api_frame_def)
  then show ?thesis
    using collect_replies_not_self [OF assms]
    by (simp add: get_tweet_replies_def c Let_def gateway_def split: bool.splits api.splits)
qed

lemma like_tweet_skips:
  assumes "get_tweet e (Suc (tick s)) tid = Raises
           \<or> (truthy (bot_user_id s) \<and> get_tweet e (Suc (tick s)) tid = Returns (Some (bot_user_id s)))"
  shows "fst (like_tweet e cfg tid s) = False
       \<and> liked_ids (calls (snd (like_tweet e cfg tid s))) = liked_ids (calls s)"
proof -
  obtain b s1 where c: "check_quota e cfg ''likes'' 1 s = (b, s1)"
    by (cases "check_quota e cfg ''likes'' 1 s") auto
  have s1: "bot_user_id s1 = bot_user_id s" "tick s1 = Suc (tick s)" "calls s1 = calls s"
    using check_quota_api_frame [of s e cfg "''likes''" 1] check_quota_frame [of e cfg "''likes''" 1 s] c
    by (simp_all add: api_frame_def)
  show ?thesis
    using assms
    by (auto simp: like_tweet_def c s1 Let_def gateway_def liked_ids_simps split: bool.splits)
qed

text \<open>
  C5.  The part of the claim on an author that cannot be resolved does not hold of
  \<^verbatim>\<open>like_tweet\<close>: the branch \<^verbatim>\<open>if tweet_data:\<close> has no \<^verbatim>\<open>else\<close>, so when the lookup
  answers without \<^verbatim>\<open>data\<close> the author is not verified and the like is issued all
  the same.  Here the lookup of \<open>r1\<close> has no data; \<^verbatim>\<open>like_tweet\<close> calls
  \<^verbatim>\<open>client.like\<close> and returns \<^verbatim>\<open>True\<close>.
\<close>

theorem like_tweet_unresolved_author:
  "like_tweet no_data_env demo_config ''r1'' fresh_bot
     = (True, fresh_bot\<lparr>quota_usage := [(''posts'', 0), (''reads'', 0), (''likes'', 1)],
                        tick := 4, calls := [GetTweet ''r1'', GetMe, Like ''r1'']\<rparr>)"
  by (simp add: like_tweet_def check_quota_def Let_def consult_def gateway_def update_quota_def
      timedelta_days_def dict_get_def truthy_def no_data_env_def demo_env_def demo_config_def
      fresh_bot_def)

section \<open>What the calls into the platform leave alone\<close>

lemma api_frame_fields:
  assumes "api_frame s s'"
  shows "bot_user_id s' = bot_user_id s" "supabase s' = supabase s"
    "replies_table s' = replies_table s" "processed_replies s' = processed_replies s"
    "conversation_replies s' = conversation_replies s" "stored_ids s' = stored_ids s"
    "tweets_table s' = tweets_table s" "startup_check_done s' = startup_check_done s"
  using assms by (simp_all add: api_frame_def stored_ids_def)

lemma post_tweet_step:
  assumes "post_tweet e cfg body img rt s = (r, s')"
  shows "api_frame s s'"
    and "liked_ids (calls s') = liked_ids (calls s)"
    and "replied_ids (calls s') = replied_ids (calls s)
         \<or> (\<exists>t. rt = Some t \<and> replied_ids (calls s') = replied_ids (calls s) @ [t])"
proof -
  obtain b s1 where c: "check_quota e cfg ''posts'' 1 s = (b, s1)"
    by (cases "check_quota e cfg ''posts'' 1 s") auto
  have f1: "api_frame s s1" and c1: "calls s1 = calls s"
    using check_quota_api_frame [of s e cfg "''posts''" 1]
      check_quota_frame(1) [of e cfg "''posts''" 1 s] c by simp_all
  define s2 where "s2 = (case img of None \<Rightarrow> s1
                         | Some url \<Rightarrow> if url = [] then s1 else snd (upload_media e url s1))"
  define target where "target = (if truthy rt then rt else None)"
  define s3 where "s3 = gateway (CreateTweet body target) s2"
  have f2: "api_frame s1 s2" and c2: "liked_ids (calls s2) = liked_ids (calls s)"
    "replied_ids (calls s2) = replied_ids (calls s)"
    by (simp_all add: s2_def upload_media_def api_frame_def gateway_def c1
        liked_ids_simps replied_ids_simps split: option.splits)
  have f3: "api_frame s s3"
    unfolding s3_def using f1 f2 api_frame_basic(2) api_frame_trans by blast
  have f4: "api_frame s (update_quota ''posts'' 1 s3)"
    using f3 api_frame_basic(3) api_frame_trans by blast
  have l3: "liked_ids (calls s3) = liked_ids (calls s)"
    by (simp add: s3_def gateway_def liked_ids_simps c2)
  have r3: "replied_ids (calls s3) = replied_ids (calls s)
         \<or> (\<exists>t. rt = Some t \<and> replied_ids (calls s3) = replied_ids (calls s) @ [t])"
    by (cases rt) (simp_all add: s3_def target_def gateway_def replied_ids_simps c2 truthy_def)
  have u: "calls (update_quota ''posts'' 1 s3) = calls s3"
    by (simp add: update_quota_def)
  have eq: "post_tweet e cfg body img rt s =
      (if \<not> b then (None, s1)
       else case create_tweet e (tick s2) body target of
              Raises \<Rightarrow> (None, s3)
            | Returns new_id \<Rightarrow>
                if truthy new_id then (new_id, update_quota ''posts'' 1 s3) else (None, s3))"
    unfolding s3_def s2_def target_def
    by (simp add: post_tweet_def c Let_def split: bool.splits)
  have "s' = s1 \<or> s' = s3 \<or> s' = update_quota ''posts'' 1 s3"
    using assms unfolding eq by (auto split: api.splits if_splits)
  then show "api_frame s s'" and "liked_ids (calls s') = liked_ids (calls s)"
    and "replied_ids (calls s') = replied_ids (calls s)
         \<or> (\<exists>t. rt = Some t \<and> replied_ids (calls s') = replied_ids (calls s) @ [t])"
    using f1 f3 f4 c1 l3 r3 u by auto
qed

lemma like_tweet_step:
  assumes "like_tweet e cfg tid s = (r, s')"
  shows "api_frame s s'"
    and "replied_ids (calls s') = replied_ids (calls s)"
    and "liked_ids (calls s') = liked_ids (calls s)
         \<or> liked_ids (calls s') = liked_ids (calls s) @ [tid]"
proof -
  obtain b s1 where c: "check_quota e cfg ''likes'' 1 s = (b, s1)"
    by (cases "check_quota e cfg ''likes'' 1 s") auto
  have f1: "api_frame s s1" and c1: "calls s1 = calls s"
    using check_quota_api_frame [of s e cfg "''likes''" 1]
      check_quota_frame(1) [of e cfg "''likes''" 1 s] c by simp_all
  define s2 where "s2 = gateway (GetTweet tid) s1"
  define s3 where "s3 = gateway GetMe s2"
  define s4 where "s4 = gateway (Like tid) s3"
  define s5 where "s5 = update_quota ''likes'' 1 s4"
  have fr: "api_frame s s2" "api_frame s s3" "api_frame s s4" "api_frame s s5"
    using f1 by (simp_all add: api_frame_def s2_def s3_def s4_def s5_def gateway_def
        update_quota_def)
  have cs: "calls s2 = calls s @ [GetTweet tid]" "calls s3 = calls s @ [GetTweet tid, GetMe]"
    "calls s4 = calls s @ [GetTweet tid, GetMe, Like tid]" "calls s5 = calls s4"
    by (simp_all add: s2_def s3_def s4_def s5_def gateway_def update_quota_def c1)
  have "s' = s1 \<or> s' = s2 \<or> s' = s3 \<or> s' = s4 \<or> s' = s5"
    using assms
    unfolding s5_def s4_def s3_def s2_def
    by (auto simp: like_tweet_def c Let_def split: bool.splits api.splits if_splits)
  then show "api_frame s s'" and "replied_ids (calls s') = replied_ids (calls s)"
    and "liked_ids (calls s') = liked_ids (calls s)
         \<or> liked_ids (calls s') = liked_ids (calls s) @ [tid]"
    using f1 fr c1 cs
    by (auto simp: liked_ids_def replied_ids_def)
qed

lemma get_tweet_replies_step:
  assumes "get_tweet_replies e cfg tid n s = (rs, s')"
  shows "api_frame s s'"
    and "replied_ids (calls s') = replied_ids (calls s)"
    and "liked_ids (calls s') = liked_ids (calls s)"
proof -
  obtain b s1 where c: "check_quota e cfg ''reads'' n s = (b, s1)"
    by (cases "check_quota e cfg ''reads'' n s") auto
  have f1: "api_frame s s1" and c1: "calls s1 = calls s"
    using check_quota_api_frame [of s e cfg "''reads''" n]
      check_quota_frame(1) [of e cfg "''reads''" n s] c by simp_all
  define s2 where "s2 = gateway (SearchRecent tid (min (max n 10) 100)) s1"
  have f2: "api_frame s s2" "\<And>k. api_frame s (consult (update_quota ''reads'' k s2))"
    using f1 by (simp_all add: api_frame_def s2_def gateway_def update_quota_def consult_def)
  have cs: "calls s2 = calls s @ [SearchRecent tid (min (max n 10) 100)]"
    "\<And>k. calls (consult (update_quota ''reads'' k s2)) = calls s2"
    by (simp_all add: s2_def gateway_def update_quota_def consult_def c1)
  have "s' = s1 \<or> s' = s2 \<or> (\<exists>k. s' = consult (update_quota ''reads'' k s2))"
    using assms unfolding s2_def
    by (auto simp: get_tweet_replies_def c Let_def split: bool.splits api.splits if_splits)
  then show "api_frame s s'" and "replied_ids (calls s') = replied_ids (calls s)"
    and "liked_ids (calls s') = liked_ids (calls s)"
    using f1 f2 c1 cs
    by (auto simp: liked_ids_def replied_ids_def)
qed

lemma store_frame_refl: "store_frame s s"
  by (simp add: store_frame_def)

lemma store_frame_trans: "store_frame s s' \<Longrightarrow> store_frame s' s'' \<Longrightarrow> store_frame s s''"
  by (simp add: store_frame_def)

lemma api_frame_store_frame: "api_frame s s' \<Longrightarrow> store_frame s s'"
  by (simp add: api_frame_def store_frame_def stored_ids_def)

lemma engaged_refl: "engaged r s s"
  by (simp add: engaged_def)

lemma engaged_like_then_reply:
  assumes "liked_ids (calls s1) = liked_ids (calls s) \<or> liked_ids (calls s1) = liked_ids (calls s) @ [r]"
    and "replied_ids (calls s1) = replied_ids (calls s)"
    and "liked_ids (calls s2) = liked_ids (calls s1)"
    and "replied_ids (calls s2) = replied_ids (calls s1) \<or> replied_ids (calls s2) = replied_ids (calls s1) @ [r]"
  shows "engaged r s s2"
  using assms by (auto simp: engaged_def)

lemma auto_like_reply_step:
  assumes "auto_like_reply e cfg rid s = (r, s')"
  shows "api_frame s s'"
    and "replied_ids (calls s') = replied_ids (calls s)"
    and "liked_ids (calls s') = liked_ids (calls s)
         \<or> liked_ids (calls s') = liked_ids (calls s) @ [rid]"
proof -
  define s1 where "s1 = gateway (GetTweet rid) s"
  have f1: "api_frame s s1" and l1: "liked_ids (calls s1) = liked_ids (calls s)"
    and r1: "replied_ids (calls s1) = replied_ids (calls s)"
    by (simp_all add: s1_def gateway_def api_frame_def liked_ids_simps replied_ids_simps)
  consider (stop) "s' = s1" | (direct) "like_tweet e cfg rid s = (r, s')"
    | (checked) "like_tweet e cfg rid s1 = (r, s')"
    using assms unfolding s1_def
    by (auto simp: auto_like_reply_def Let_def split: if_splits api.splits option.splits)
  then have "api_frame s s' \<and> replied_ids (calls s') = replied_ids (calls s)
      \<and> (liked_ids (calls s') = liked_ids (calls s)
         \<or> liked_ids (calls s') = liked_ids (calls s) @ [rid])"
  proof cases
    case stop
    then show ?thesis using f1 l1 r1 by simp
  next
    case direct
    then show ?thesis using like_tweet_step [OF direct] by simp
  next
    case checked
    note st = like_tweet_step [OF checked]
    show ?thesis using st f1 l1 r1 api_frame_trans by auto
  qed
  then show "api_frame s s'" and "replied_ids (calls s') = replied_ids (calls s)"
    and "liked_ids (calls s') = liked_ids (calls s)
         \<or> liked_ids (calls s') = liked_ids (calls s) @ [rid]"
    by simp_all
qed

lemma generate_reply_content_step:
  assumes "generate_reply_content e reply s = (r, s')"
  shows "api_frame s s'"
    and "replied_ids (calls s') = replied_ids (calls s)"
    and "liked_ids (calls s') = liked_ids (calls s)"
proof -
  have "s' = consult (gateway (GetUser (author_id reply)) s)"
    using assms
    by (auto simp: generate_reply_content_def generate_llm_reply_def
        get_username_from_author_id_def split: option.splits if_splits prod.splits)
  then show "api_frame s s'" and "replied_ids (calls s') = replied_ids (calls s)"
    and "liked_ids (calls s') = liked_ids (calls s)"
    by (simp_all add: api_frame_def consult_def gateway_def liked_ids_simps replied_ids_simps)
qed

lemma auto_reply_to_comment_step:
  assumes "auto_reply_to_comment e cfg reply s = (r, s')"
  shows "store_frame s s' \<and> liked_ids (calls s') = liked_ids (calls s)
      \<and> (replied_ids (calls s') = replied_ids (calls s)
         \<or> replied_ids (calls s') = replied_ids (calls s) @ [reply_id reply])
      \<and> (conversation_replies s' = conversation_replies s
         \<or> (r \<and> dict_get (conversation_replies s) (original_tweet_id reply) 0
                   < max_replies_per_conversation cfg
               \<and> conversation_replies s'
                   = dict_set (conversation_replies s) (original_tweet_id reply)
                       (dict_get (conversation_replies s) (original_tweet_id reply) 0 + 1)
               \<and> (reply_id reply \<noteq> [] \<longrightarrow>
                    replied_ids (calls s') = replied_ids (calls s) @ [reply_id reply])))"
proof -
  let ?cur = "dict_get (conversation_replies s) (original_tweet_id reply) 0"
  show ?thesis
  proof (cases "max_replies_per_conversation cfg \<le> ?cur")
    case True
    then have "s' = s" using assms by (simp add: auto_reply_to_comment_def Let_def)
    then show ?thesis
      by (simp add: store_frame_refl)
  next
    case False
    obtain g s1 where g: "generate_reply_content e reply s = (g, s1)"
      by (cases "generate_reply_content e reply s") auto
    note gs = generate_reply_content_step [OF g]
    show ?thesis
    proof (cases "g = None \<or> g = Some []")
      case True
      then have "s' = s1" using assms False g
        by (auto simp: auto_reply_to_comment_def Let_def)
      then show ?thesis using gs by (simp add: api_frame_store_frame api_frame_fields)
    next
      case nonempty: False
      then obtain body where b: "g = Some body" "body \<noteq> []" by (cases g) auto
      obtain p s2 where p: "post_tweet e cfg body None (Some (reply_id reply)) s1 = (p, s2)"
        by (cases "post_tweet e cfg body None (Some (reply_id reply)) s1") auto
      note ps = post_tweet_step [OF p]
      have f2: "api_frame s s2" using gs(1) ps(1) api_frame_trans by blast
      have l2: "liked_ids (calls s2) = liked_ids (calls s)" using gs ps by simp
      have r2: "replied_ids (calls s2) = replied_ids (calls s)
                \<or> replied_ids (calls s2) = replied_ids (calls s) @ [reply_id reply]"
        using gs ps by auto
      have c2: "conversation_replies s2 = conversation_replies s"
        using f2 by (simp add: api_frame_fields)
      have posted: "replied_ids (calls s2) = replied_ids (calls s) @ [reply_id reply]"
        if "truthy p" "reply_id reply \<noteq> []"
      proof -
        obtain b0 s0 where c: "check_quota e cfg ''posts'' 1 s1 = (b0, s0)"
          by (cases "check_quota e cfg ''posts'' 1 s1") auto
        have c0: "calls s0 = calls s1"
          using check_quota_frame(1) [of e cfg "''posts''" 1 s1] c by simp
        have tr: "truthy (Some (reply_id reply)) \<or> \<not> truthy (Some (reply_id reply))" by simp
        show ?thesis
          using p that gs(2)
          by (auto simp: post_tweet_def c c0 Let_def gateway_def update_quota_def truthy_def
              replied_ids_simps split: bool.splits api.splits if_splits)
      qed
      show ?thesis
      proof (cases "truthy p")
        case True
        then have s': "s' = s2\<lparr>conversation_replies :=
                   dict_set (conversation_replies s2) (original_tweet_id reply) (?cur + 1)\<rparr>"
          and r: "r"
          using assms False g b p by (auto simp: auto_reply_to_comment_def Let_def)
        have "store_frame s s2" using f2 by (rule api_frame_store_frame)
        then have "store_frame s s'" by (simp add: s' store_frame_def stored_ids_def)
        then show ?thesis using l2 r2 posted [OF True] False r c2 by (auto simp: s')
      next
        case nt: False
        then have "s' = s2" using assms False g b p
          by (auto simp: auto_reply_to_comment_def Let_def)
        then show ?thesis using f2 l2 r2 c2 by (simp add: api_frame_store_frame)
      qed
    qed
  qed
qed

lemma save_reply_step:
  assumes "save_reply e reply s = (r, s')"
  shows "bot_user_id s' = bot_user_id s \<and> supabase s' = supabase s
       \<and> processed_replies s' = processed_replies s
       \<and> conversation_replies s' = conversation_replies s
       \<and> tweets_table s' = tweets_table s \<and> startup_check_done s' = startup_check_done s
       \<and> calls s' = calls s
       \<and> (\<not> supabase s \<longrightarrow> r = None \<and> s' = s)
       \<and> (supabase s \<longrightarrow>
            stored_ids s' = (if reply_id reply \<in> set (stored_ids s) then stored_ids s
                             else stored_ids s @ [reply_id reply]))"
proof (cases "supabase s")
  case False
  then show ?thesis using assms by (auto simp: save_reply_def)
next
  case True
  show ?thesis
  proof (cases "filter (\<lambda>row. reply_id (snd row) = reply_id reply) (replies_table s)")
    case Nil
    then have notin: "reply_id reply \<notin> set (stored_ids s)"
      by (auto simp: stored_ids_def filter_empty_conv)
    show ?thesis
      using assms True Nil notin
      by (auto simp: save_reply_def consult_def stored_ids_def)
  next
    case (Cons row rows)
    then have "row \<in> set (filter (\<lambda>row. reply_id (snd row) = reply_id reply) (replies_table s))"
      by simp
    then have isin: "reply_id reply \<in> set (stored_ids s)"
      by (force simp: stored_ids_def)
    have m: "map (\<lambda>row. reply_id (snd row))
               (map (\<lambda>r. if reply_id (snd r) = reply_id reply
                          then (fst r, (snd r)\<lparr>liked := liked reply\<rparr>) else r) t)
             = map (\<lambda>row. reply_id (snd row)) t" for t
      by (induction t) auto
    show ?thesis
      using assms True Cons isin m
      by (auto simp: save_reply_def stored_ids_def split: if_splits)
  qed
qed

lemma mark_reply_liked_step:
  assumes "mark_reply_liked rid s = (r, s')"
  shows "store_frame s s' \<and> calls s' = calls s
       \<and> conversation_replies s' = conversation_replies s
       \<and> (r = Raises) = (\<not> supabase s)"
proof -
  have m: "map (\<lambda>row. reply_id (snd row))
             (map (\<lambda>r. if reply_id (snd r) = rid then (fst r, (snd r)\<lparr>liked := True\<rparr>) else r) t)
           = map (\<lambda>row. reply_id (snd row)) t" for t
    by (induction t) auto
  show ?thesis
    using assms m
    by (auto simp: mark_reply_liked_def store_frame_def stored_ids_def split: if_splits)
qed

lemma like_and_reply_step:
  assumes "like_and_reply e cfg reply st s = (b, st', s')"
  shows "store_frame s s' \<and> engaged (reply_id reply) s s'
       \<and> (b \<longrightarrow> \<not> supabase s)
       \<and> new_replies st' = new_replies st \<and> checked_tweets st' = checked_tweets st
       \<and> errors st' = errors st"
proof -
  let ?rid = "reply_id reply"
  define like_part where "like_part =
     (if auto_like_replies cfg
      then (case auto_like_reply e cfg ?rid s of
              (False, s1) \<Rightarrow> (False, st, s1)
            | (True, s1) \<Rightarrow>
                (case mark_reply_liked ?rid s1 of
                   (Raises, s2) \<Rightarrow> (True, st\<lparr>likes_sent := likes_sent st + 1\<rparr>, s2)
                 | (Returns _, s2) \<Rightarrow> (False, st\<lparr>likes_sent := likes_sent st + 1\<rparr>, s2)))
      else (False, st, s))"
  have eq: "like_and_reply e cfg reply st s =
     (case like_part of
        (True, st1, s1) \<Rightarrow> (True, st1, s1)
      | (False, st1, s1) \<Rightarrow>
          if auto_reply_enabled cfg
          then (case auto_reply_to_comment e cfg reply s1 of
                  (True, s2) \<Rightarrow> (False, st1\<lparr>replies_sent := replies_sent st1 + 1\<rparr>, s2)
                | (False, s2) \<Rightarrow> (False, st1, s2))
          else (False, st1, s1))"
    unfolding like_part_def like_and_reply_def by (rule refl)
  obtain b1 st1 s1 where lp: "like_part = (b1, st1, s1)" by (cases like_part) auto
  have l: "store_frame s s1 \<and> replied_ids (calls s1) = replied_ids (calls s)
        \<and> (liked_ids (calls s1) = liked_ids (calls s)
            \<or> liked_ids (calls s1) = liked_ids (calls s) @ [?rid])
        \<and> (b1 \<longrightarrow> \<not> supabase s)
        \<and> new_replies st1 = new_replies st \<and> checked_tweets st1 = checked_tweets st
        \<and> errors st1 = errors st"
  proof (cases "auto_like_replies cfg")
    case False
    then show ?thesis using lp by (simp add: like_part_def store_frame_refl)
  next
    case True
    obtain a sa where a: "auto_like_reply e cfg ?rid s = (a, sa)"
      by (cases "auto_like_reply e cfg ?rid s") auto
    note as = auto_like_reply_step [OF a]
    have fa: "store_frame s sa" using as(1) by (rule api_frame_store_frame)
    show ?thesis
    proof (cases a)
      case False
      then show ?thesis using lp True a as fa by (simp add: like_part_def)
    next
      case liked: True
      obtain m sm where m: "mark_reply_liked ?rid sa = (m, sm)"
        by (cases "mark_reply_liked ?rid sa") auto
      note ms = mark_reply_liked_step [OF m]
      have fm: "store_frame s sm" using fa ms store_frame_trans by blast
      have sup: "supabase sa = supabase s" using fa by (simp add: store_frame_def)
      show ?thesis
        using lp True a liked m as ms fm sup
        by (cases m) (auto simp: like_part_def)
    qed
  qed
  show ?thesis
  proof (cases "b1 \<or> \<not> auto_reply_enabled cfg")
    case True
    then have "(b, st', s') = (b1, st1, s1)"
      using assms unfolding eq lp by (cases b1) auto
    then show ?thesis using l by (auto simp: engaged_def)
  next
    case False
    obtain r s2 where r: "auto_reply_to_comment e cfg reply s1 = (r, s2)"
      by (cases "auto_reply_to_comment e cfg reply s1") auto
    note rs = auto_reply_to_comment_step [OF r]
    have res: "b = False \<and> s' = s2 \<and> new_replies st' = new_replies st1
        \<and> checked_tweets st' = checked_tweets st1 \<and> errors st' = errors st1"
      using assms False r unfolding eq lp by (cases r) auto
    have f: "store_frame s s2" using l rs store_frame_trans by blast
    have e: "engaged ?rid s s2"
      using l rs by (intro engaged_like_then_reply [of s1 s ?rid s2]) auto
    show ?thesis using res f e l by simp
  qed
qed

section \<open>Two-tier deduplication of a page\<close>

lemma process_reply_known:
  assumes "reply_id reply \<in> set (processed_replies s) \<or> reply_id reply \<in> set X"
  shows "process_reply e cfg X reply st s
           = (False, st, s\<lparr>processed_replies := set_add (processed_replies s) (reply_id reply)\<rparr>)"
  using assms by (auto simp: process_reply_def set_add_def)

lemma process_reply_new:
  assumes new: "reply_id reply \<notin> set (processed_replies s)" "reply_id reply \<notin> set X"
    and run: "process_reply e cfg X reply st s = (b, st', s')"
  shows "new_replies st' = new_replies st + 1
       \<and> processed_replies s' = processed_replies s @ [reply_id reply]
       \<and> supabase s' = supabase s \<and> bot_user_id s' = bot_user_id s
       \<and> engaged (reply_id reply) s s'
       \<and> (\<not> supabase s \<longrightarrow> calls s' = calls s \<and> stored_ids s' = stored_ids s)
       \<and> (supabase s \<longrightarrow> \<not> b
            \<and> stored_ids s' = (if reply_id reply \<in> set (stored_ids s) then stored_ids s
                                else stored_ids s @ [reply_id reply]))"
proof -
  let ?rid = "reply_id reply"
  define s0 where "s0 = s\<lparr>processed_replies := set_add (processed_replies s) ?rid\<rparr>"
  obtain saved s1 where sv: "save_reply e reply s0 = (saved, s1)"
    by (cases "save_reply e reply s0") auto
  note ss = save_reply_step [OF sv]
  have s0: "processed_replies s0 = processed_replies s @ [?rid]" "supabase s0 = supabase s"
    "bot_user_id s0 = bot_user_id s" "calls s0 = calls s" "stored_ids s0 = stored_ids s"
    using new by (simp_all add: s0_def set_add_def stored_ids_def)
  have eq: "process_reply e cfg X reply st s =
      (if truthy saved
       then like_and_reply e cfg reply (st\<lparr>new_replies := new_replies st + 1\<rparr>) s1
       else (False, st\<lparr>new_replies := new_replies st + 1\<rparr>, s1))"
    using new sv by (simp add: process_reply_def s0_def)
  have s1: "processed_replies s1 = processed_replies s @ [?rid]" "supabase s1 = supabase s"
    "bot_user_id s1 = bot_user_id s" "calls s1 = calls s"
    using ss s0 by simp_all
  have st1: "supabase s \<Longrightarrow> stored_ids s1 = (if ?rid \<in> set (stored_ids s) then stored_ids s
                                else stored_ids s @ [?rid])"
    using ss s0 by simp
  have ns: "\<not> supabase s \<Longrightarrow> saved = None \<and> stored_ids s1 = stored_ids s"
    using ss s0 by auto
  show ?thesis
  proof (cases "truthy saved")
    case False
    then have "b = False" "st' = st\<lparr>new_replies := new_replies st + 1\<rparr>" "s' = s1"
      using run unfolding eq by simp_all
    then show ?thesis using s1 st1 ns by (auto simp: engaged_def)
  next
    case True
    then have lr: "like_and_reply e cfg reply (st\<lparr>new_replies := new_replies st + 1\<rparr>) s1
                     = (b, st', s')"
      using run unfolding eq by simp
    note ls = like_and_reply_step [OF lr]
    have sup: "supabase s"
    proof (rule ccontr)
      assume "\<not> supabase s"
      then have "saved = None" using ns by simp
      then show False using True by (simp add: truthy_def)
    qed
    have en: "engaged ?rid s s'" using ls s1 by (simp add: engaged_def)
    show ?thesis
      using ls s1 st1 sup en by (auto simp: store_frame_def)
  qed
qed





lemma get_existing_reply_ids_set:
  assumes "supabase s"
  shows "set (get_existing_reply_ids e ids s)
           = (if existing_ids_query_raises e (tick s) then {}
              else set (stored_ids s) \<inter> set ids)"
  using assms by (auto simp: get_existing_reply_ids_def stored_ids_def)



section \<open>Idempotent reply processing\<close>

lemma progress_refl: "progress s s"
  by (simp add: progress_def)

lemma progress_same_log:
  assumes "liked_ids (calls s') = liked_ids (calls s)"
    and "replied_ids (calls s') = replied_ids (calls s)"
    and "set (stored_ids s) \<subseteq> set (stored_ids s')"
  shows "progress s s'"
  using assms by (simp add: progress_def)

lemma progress_trans:
  assumes p1: "progress s s1" and p2: "progress s1 s2"
    and mono: "set (processed_replies s) \<subseteq> set (processed_replies s1)"
  shows "progress s s2"
proof -
  obtain l1 r1 where a:
    "liked_ids (calls s1) = liked_ids (calls s) @ l1"
    "replied_ids (calls s1) = replied_ids (calls s) @ r1"
    "distinct l1" "distinct r1" "set l1 \<inter> known s = {}" "set r1 \<inter> known s = {}"
    "set l1 \<subseteq> set (stored_ids s1)" "set r1 \<subseteq> set (stored_ids s1)"
    "set (stored_ids s) \<subseteq> set (stored_ids s1)"
    using p1 unfolding progress_def by blast
  obtain l2 r2 where b:
    "liked_ids (calls s2) = liked_ids (calls s1) @ l2"
    "replied_ids (calls s2) = replied_ids (calls s1) @ r2"
    "distinct l2" "distinct r2" "set l2 \<inter> known s1 = {}" "set r2 \<inter> known s1 = {}"
    "set l2 \<subseteq> set (stored_ids s2)" "set r2 \<subseteq> set (stored_ids s2)"
    "set (stored_ids s1) \<subseteq> set (stored_ids s2)"
    using p2 unfolding progress_def by blast
  have k: "known s \<subseteq> known s1" using mono a(9) by (auto simp: known_def)
  have k1: "set l1 \<subseteq> known s1" "set r1 \<subseteq> known s1" using a(7,8) by (auto simp: known_def)
  have "liked_ids (calls s2) = liked_ids (calls s) @ (l1 @ l2)"
    and "replied_ids (calls s2) = replied_ids (calls s) @ (r1 @ r2)"
    using a b by simp_all
  moreover have "distinct (l1 @ l2)" "distinct (r1 @ r2)"
    using a(3,4) b(3,4,5,6) k1 by auto
  moreover have "set (l1 @ l2) \<inter> known s = {}" "set (r1 @ r2) \<inter> known s = {}"
    using a(5,6) b(5,6) k by auto
  moreover have "set (l1 @ l2) \<subseteq> set (stored_ids s2)" "set (r1 @ r2) \<subseteq> set (stored_ids s2)"
    using a(7,8) b(7,8,9) by auto
  moreover have "set (stored_ids s) \<subseteq> set (stored_ids s2)" using a(9) b(9) by auto
  ultimately show ?thesis unfolding progress_def by blast
qed

lemma progress_handled_once:
  assumes "handled_once s" and "progress s s'"
  shows "handled_once s'"
proof -
  obtain ls rs where a:
    "liked_ids (calls s') = liked_ids (calls s) @ ls"
    "replied_ids (calls s') = replied_ids (calls s) @ rs"
    "distinct ls" "distinct rs" "set ls \<inter> known s = {}" "set rs \<inter> known s = {}"
    "set ls \<subseteq> set (stored_ids s')" "set rs \<subseteq> set (stored_ids s')"
    "set (stored_ids s) \<subseteq> set (stored_ids s')"
    using assms(2) unfolding progress_def by blast
  have h: "distinct (liked_ids (calls s))" "distinct (replied_ids (calls s))"
    "set (liked_ids (calls s)) \<subseteq> set (stored_ids s)"
    "set (replied_ids (calls s)) \<subseteq> set (stored_ids s)"
    using assms(1) by (simp_all add: handled_once_def)
  have "set (liked_ids (calls s)) \<inter> set ls = {}" "set (replied_ids (calls s)) \<inter> set rs = {}"
    using h(3,4) a(5,6) by (auto simp: known_def)
  then show ?thesis
    using a h by (auto simp: handled_once_def)
qed

lemma progress_known_unchanged:
  assumes "progress s s'" and "r \<in> known s"
  shows "count_list (liked_ids (calls s')) r = count_list (liked_ids (calls s)) r"
    and "count_list (replied_ids (calls s')) r = count_list (replied_ids (calls s)) r"
proof -
  obtain ls rs where a:
    "liked_ids (calls s') = liked_ids (calls s) @ ls"
    "replied_ids (calls s') = replied_ids (calls s) @ rs"
    "set ls \<inter> known s = {}" "set rs \<inter> known s = {}"
    using assms(1) unfolding progress_def by blast
  have "r \<notin> set ls" "r \<notin> set rs" using a(3,4) assms(2) by auto
  then have "count_list ls r = 0" "count_list rs r = 0" by (simp_all add: count_list_0_iff)
  then show "count_list (liked_ids (calls s')) r = count_list (liked_ids (calls s)) r"
    and "count_list (replied_ids (calls s')) r = count_list (replied_ids (calls s)) r"
    using a(1,2) by simp_all
qed

lemma process_reply_progress:
  assumes fresh: "supabase s \<longrightarrow> reply_id reply \<in> set (stored_ids s) \<longrightarrow>
            reply_id reply \<in> set X \<or> reply_id reply \<in> set (processed_replies s)"
    and run: "process_reply e cfg X reply st s = (b, st', s')"
  shows "progress s s' \<and> supabase s' = supabase s
       \<and> set (processed_replies s') = insert (reply_id reply) (set (processed_replies s))
       \<and> set (stored_ids s') \<subseteq> insert (reply_id reply) (set (stored_ids s))"
proof (cases "reply_id reply \<in> set (processed_replies s) \<or> reply_id reply \<in> set X")
  case True
  have "s' = s\<lparr>processed_replies := set_add (processed_replies s) (reply_id reply)\<rparr>"
    using run process_reply_known [OF True, of e cfg st] by simp
  then show ?thesis
    by (auto simp: progress_def stored_ids_def set_add_def)
next
  case False
  let ?rid = "reply_id reply"
  from False have new: "?rid \<notin> set (processed_replies s)" "?rid \<notin> set X" by simp_all
  note ps = process_reply_new [OF new run]
  show ?thesis
  proof (cases "supabase s")
    case nosup: False
    then show ?thesis using ps by (auto simp: progress_def)
  next
    case sup: True
    then have unstored: "?rid \<notin> set (stored_ids s)" using fresh False by auto
    then have unknown: "?rid \<notin> known s" using new by (simp add: known_def)
    have st: "stored_ids s' = stored_ids s @ [?rid]" using ps sup unstored by simp
    have en: "engaged ?rid s s'" using ps by simp
    obtain ls where ls: "liked_ids (calls s') = liked_ids (calls s) @ ls" "ls = [] \<or> ls = [?rid]"
      using en by (auto simp: engaged_def)
    obtain rs where rs: "replied_ids (calls s') = replied_ids (calls s) @ rs" "rs = [] \<or> rs = [?rid]"
      using en by (auto simp: engaged_def)
    have "progress s s'"
      unfolding progress_def
      using ls rs unknown st
      by (intro exI [of _ ls] exI [of _ rs]) auto
    then show ?thesis using ps st by auto
  qed
qed

lemma handle_replies_progress:
  assumes "supabase s \<longrightarrow> (\<forall>r \<in> set page. reply_id r \<in> set (stored_ids s) \<longrightarrow>
            reply_id r \<in> set X \<or> reply_id r \<in> set (processed_replies s))"
    and "handle_replies e cfg X page st s = (b, st', s')"
  shows "progress s s' \<and> supabase s' = supabase s
       \<and> set (processed_replies s) \<subseteq> set (processed_replies s')"
  using assms
proof (induction page arbitrary: st s)
  case Nil
  then show ?case by (simp add: progress_refl)
next
  case (Cons r rest)
  obtain b1 st1 s1 where p: "process_reply e cfg X r st s = (b1, st1, s1)"
    by (cases "process_reply e cfg X r st s") auto
  have fr: "supabase s \<longrightarrow> reply_id r \<in> set (stored_ids s) \<longrightarrow>
            reply_id r \<in> set X \<or> reply_id r \<in> set (processed_replies s)"
    using Cons.prems(1) by simp
  note ps = process_reply_progress [OF fr p]
  show ?case
  proof (cases b1)
    case True
    then have "s' = s1" using Cons.prems(2) p by simp
    then show ?thesis using ps by auto
  next
    case False
    then have run: "handle_replies e cfg X rest st1 s1 = (b, st', s')"
      using Cons.prems(2) p by simp
    have fresh: "supabase s1 \<longrightarrow> (\<forall>r \<in> set rest. reply_id r \<in> set (stored_ids s1) \<longrightarrow>
            reply_id r \<in> set X \<or> reply_id r \<in> set (processed_replies s1))"
      using Cons.prems(1) ps by auto
    note ih = Cons.IH [OF fresh run]
    have "progress s s'"
      using ps ih by (intro progress_trans [of s s1 s']) auto
    then show ?thesis using ps ih by auto
  qed
qed

lemma progress_cong:
  assumes "progress s s'"
    and "calls t = calls s" "stored_ids t = stored_ids s"
    and "processed_replies t = processed_replies s"
    and "calls t' = calls s'" "stored_ids t' = stored_ids s'"
  shows "progress t t'"
  using assms by (simp add: progress_def known_def)

lemma process_reply_cache:
  assumes "process_reply e cfg X reply st s = (b, st', s')"
  shows "processed_replies s' = set_add (processed_replies s) (reply_id reply)"
proof (cases "reply_id reply \<in> set (processed_replies s) \<or> reply_id reply \<in> set X")
  case True
  then show ?thesis using assms process_reply_known [OF True, of e cfg st] by auto
next
  case False
  then have new: "reply_id reply \<notin> set (processed_replies s)" "reply_id reply \<notin> set X"
    by simp_all
  show ?thesis using process_reply_new [OF new assms] new by (simp add: set_add_def)
qed

lemma handle_replies_cache:
  assumes "handle_replies e cfg X page st s = (b, st', s')"
    and "distinct (processed_replies s)"
  shows "distinct (processed_replies s')"
  using assms
proof (induction page arbitrary: st s)
  case Nil
  then show ?case by simp
next
  case (Cons r rest)
  obtain b1 st1 s1 where p: "process_reply e cfg X r st s = (b1, st1, s1)"
    by (cases "process_reply e cfg X r st s") auto
  have d1: "distinct (processed_replies s1)"
    using process_reply_cache [OF p] Cons.prems(2) by (simp add: set_add_def)
  show ?case
  proof (cases b1)
    case True
    then show ?thesis using Cons.prems(1) p d1 by simp
  next
    case False
    then show ?thesis using Cons.prems(1) p Cons.IH [OF _ d1] by simp
  qed
qed

lemma handle_tweets_progress:
  assumes ok: "\<forall>t. \<not> existing_ids_query_raises e t"
    and run: "handle_tweets e cfg tweets st s = (st', s')"
  shows "progress s s' \<and> supabase s' = supabase s
       \<and> set (processed_replies s) \<subseteq> set (processed_replies s')
       \<and> (distinct (processed_replies s) \<longrightarrow> distinct (processed_replies s'))"
  using run
proof (induction tweets arbitrary: st s)
  case Nil
  then show ?case by (simp add: progress_refl)
next
  case (Cons tweet rest)
  obtain replies s1 where g: "get_tweet_replies e cfg (tweet_id tweet) 10 s = (replies, s1)"
    by (cases "get_tweet_replies e cfg (tweet_id tweet) 10 s") auto
  note gs = get_tweet_replies_step [OF g]
  note f1 = api_frame_fields [OF gs(1)]
  have p1: "progress s s1" using gs f1 by (intro progress_same_log) simp_all
  show ?case
  proof (cases "replies = []")
    case True
    then have run: "handle_tweets e cfg rest st s1 = (st', s')"
      using Cons.prems g by simp
    note ih = Cons.IH [OF run]
    have "progress s s'" using p1 ih f1 by (intro progress_trans [of s s1 s']) auto
    then show ?thesis using ih f1 by auto
  next
    case False
    let ?X = "get_existing_reply_ids e (map reply_id replies) s1"
    obtain b2 st2 s2 where h: "handle_replies e cfg ?X replies st s1 = (b2, st2, s2)"
      by (cases "handle_replies e cfg ?X replies st s1") auto
    have fresh: "supabase s1 \<longrightarrow> (\<forall>r \<in> set replies. reply_id r \<in> set (stored_ids s1) \<longrightarrow>
            reply_id r \<in> set ?X \<or> reply_id r \<in> set (processed_replies s1))"
      using ok by (auto simp: get_existing_reply_ids_set)
    note hs = handle_replies_progress [OF fresh h]
    note hc = handle_replies_cache [OF h]
    obtain st3 where run: "handle_tweets e cfg rest st3 s2 = (st', s')"
      using Cons.prems g h False by (cases b2) auto
    note ih = Cons.IH [OF run]
    have p2: "progress s s2" using p1 hs f1 by (intro progress_trans [of s s1 s2]) auto
    have "progress s s'" using p2 ih hs f1 by (intro progress_trans [of s s2 s']) auto
    then show ?thesis using ih hs hc f1 by auto
  qed
qed

lemma handle_tweets_cache:
  assumes "handle_tweets e cfg tweets st s = (st', s')" and "distinct (processed_replies s)"
  shows "distinct (processed_replies s')"
  using assms
proof (induction tweets arbitrary: st s)
  case Nil
  then show ?case by simp
next
  case (Cons tweet rest)
  obtain replies s1 where g: "get_tweet_replies e cfg (tweet_id tweet) 10 s = (replies, s1)"
    by (cases "get_tweet_replies e cfg (tweet_id tweet) 10 s") auto
  note gs = get_tweet_replies_step [OF g]
  note f1 = api_frame_fields [OF gs(1)]
  have d1: "distinct (processed_replies s1)" using f1 Cons.prems(2) by simp
  show ?case
  proof (cases "replies = []")
    case True
    then have run: "handle_tweets e cfg rest st s1 = (st', s')"
      using Cons.prems(1) g by simp
    show ?thesis using Cons.IH [OF run d1] .
  next
    case False
    let ?X = "get_existing_reply_ids e (map reply_id replies) s1"
    obtain b2 st2 s2 where h: "handle_replies e cfg ?X replies st s1 = (b2, st2, s2)"
      by (cases "handle_replies e cfg ?X replies st s1") auto
    note hc = handle_replies_cache [OF h d1]
    obtain st3 where run: "handle_tweets e cfg rest st3 s2 = (st', s')"
      using Cons.prems(1) g h False by (cases b2) auto
    show ?thesis using Cons.IH [OF run hc] .
  qed
qed

lemma clean_fields:
  "calls (clean_processed_replies e s) = calls s"
  "stored_ids (clean_processed_replies e s) = stored_ids s"
  "calls (clean_conversation_replies s) = calls s"
  "stored_ids (clean_conversation_replies s) = stored_ids s"
  "processed_replies (clean_conversation_replies s) = processed_replies s"
  "conversation_replies (clean_processed_replies e s) = conversation_replies s"
  by (simp_all add: clean_processed_replies_def clean_conversation_replies_def stored_ids_def)

lemma check_and_handle_replies_progress:
  assumes ok: "\<forall>t. \<not> existing_ids_query_raises e t"
  shows "progress s (snd (check_and_handle_replies e cfg s))"
proof (cases "supabase s")
  case False
  then show ?thesis
    by (simp add: check_and_handle_replies_def get_recent_tweets_def progress_refl)
next
  case True
  let ?hours = "if startup_check_done s then 24 else 168 :: int"
  obtain our_tweets where g: "get_recent_tweets e ?hours s = (Returns our_tweets, consult s)"
    using True by (simp add: get_recent_tweets_def)
  let ?s0 = "(consult s)\<lparr>startup_check_done := True\<rparr>"
  let ?st0 = "\<lparr>checked_tweets = int (length our_tweets), new_replies = 0, likes_sent = 0,
               replies_sent = 0, errors = 0, startup_check = \<not> startup_check_done s\<rparr>"
  obtain stats s2 where h: "handle_tweets e cfg our_tweets ?st0 ?s0 = (stats, s2)"
    by (cases "handle_tweets e cfg our_tweets ?st0 ?s0") auto
  note hs = handle_tweets_progress [OF ok h]
  have res: "snd (check_and_handle_replies e cfg s)
           = consult ((clean_conversation_replies (clean_processed_replies e s2))
                        \<lparr>last_check := utcnow e (tick s2)\<rparr>)"
    using g h by (simp add: check_and_handle_replies_def)
  have p: "progress ?s0 s2" using hs by simp
  show ?thesis
    unfolding res
    by (rule progress_cong [OF p])
       (simp_all add: consult_def stored_ids_def clean_processed_replies_def
          clean_conversation_replies_def)
qed

lemma reset_processed_cache_handled_once:
  "handled_once (reset_processed_cache s) = handled_once s"
  by (simp add: handled_once_def reset_processed_cache_def stored_ids_def)

text \<open>As long as the batch existence query answers: after any sequence of polling
  cycles and clearings of the processed cache, whatever the platform answers, no
  reply has been liked twice and none has been answered twice, and one polling cycle
  issues no like and no answer for an identifier that is in the cache or in the table
  when the cycle starts.\<close>

lemma run_handler_handled_once:
  assumes ok: "\<forall>t. \<not> existing_ids_query_raises e t"
    and h: "handled_once s"
  shows "handled_once (run_handler e cfg es s)"
  using h
proof (induction es arbitrary: s)
  case Nil
  then show ?case by simp
next
  case (Cons ev es)
  show ?case
  proof (cases ev)
    case CheckReplies
    have "handled_once (snd (check_and_handle_replies e cfg s))"
      using Cons.prems check_and_handle_replies_progress [OF ok] by (rule progress_handled_once)
    then show ?thesis using Cons.IH CheckReplies by simp
  next
    case ClearCache
    then show ?thesis
      using Cons.IH Cons.prems by (simp add: reset_processed_cache_handled_once)
  qed
qed

lemma check_and_handle_replies_known:
  assumes ok: "\<forall>t. \<not> existing_ids_query_raises e t" and "r \<in> known s"
  shows "count_list (liked_ids (calls (snd (check_and_handle_replies e cfg s)))) r
           = count_list (liked_ids (calls s)) r"
    and "count_list (replied_ids (calls (snd (check_and_handle_replies e cfg s)))) r
           = count_list (replied_ids (calls s)) r"
  using progress_known_unchanged [OF check_and_handle_replies_progress [OF ok] assms(2)]
  by simp_all

lemmas bot_defs =
  check_and_handle_replies_def manual_deep_scan_def get_recent_tweets_def
  consult_def gateway_def get_tweet_replies_def check_quota_def Let_def timedelta_days_def
  dict_get_def update_quota_def get_existing_reply_ids_def process_reply_def scan_reply_def
  set_add_def save_reply_def truthy_def like_and_reply_def auto_like_reply_def like_tweet_def
  mark_reply_liked_def auto_reply_to_comment_def generate_reply_content_def
  generate_llm_reply_def get_username_from_author_id_def post_tweet_def
  clean_processed_replies_def clean_conversation_replies_def reset_processed_cache_def
  liked_ids_def replied_ids_def stored_ids_def

lemmas example_defs =
  busy_bot_def dedup_bot_def fresh_bot_def persisted_bot_def page_env_def single_env_def
  demo_env_def demo_config_def found_reply_def page_reply_def

text \<open>A run with a query that answers: the cache holds \<open>r1\<close> and \<open>r2\<close>, the table
  holds \<open>r2\<close> and \<open>r3\<close>, and the platform finds \<open>r1\<close> to \<open>r4\<close> at both polls, with a
  clearing of the cache in between.\<close>

lemma run_handler_example:
  "handled_once (run_handler page_env demo_config [CheckReplies, ClearCache, CheckReplies] busy_bot)
   \<and> liked_ids (calls (run_handler page_env demo_config
                          [CheckReplies, ClearCache, CheckReplies] busy_bot)) = [''r4'', ''r1'']
   \<and> replied_ids (calls (run_handler page_env demo_config
                            [CheckReplies, ClearCache, CheckReplies] busy_bot)) = [''r4'']"
proof -
  have ok: "\<forall>t. \<not> existing_ids_query_raises page_env t"
    by (simp add: page_env_def demo_env_def)
  have h: "handled_once busy_bot"
    by (simp add: handled_once_def busy_bot_def dedup_bot_def fresh_bot_def liked_ids_def
        replied_ids_def)
  have run: "calls (run_handler page_env demo_config [CheckReplies, ClearCache, CheckReplies] busy_bot)
               = [SearchRecent ''t1'' 10, GetTweet ''r4'', GetTweet ''r4'', GetMe, Like ''r4'',
                  GetUser (Some ''42''), CreateTweet ''thanks'' (Some ''r4''),
                  SearchRecent ''t1'' 10, GetTweet ''r1'', GetTweet ''r1'', GetMe, Like ''r1'']"
    by (simp add: bot_defs example_defs)
  have liked: "liked_ids (calls (run_handler page_env demo_config
                   [CheckReplies, ClearCache, CheckReplies] busy_bot)) = [''r4'', ''r1'']"
    unfolding run by (simp add: liked_ids_def)
  have replied: "replied_ids (calls (run_handler page_env demo_config
                   [CheckReplies, ClearCache, CheckReplies] busy_bot)) = [''r4'']"
    unfolding run by (simp add: replied_ids_def)
  show ?thesis
    using run_handler_handled_once [OF ok h, of demo_config
        "[CheckReplies, ClearCache, CheckReplies]"] liked replied
    by blast
qed

text \<open>
  C1.  A reply that is in the table, liked and answered, is liked and answered a
  second time when the batch existence query raises.  The bot owns the tweet \<open>t1\<close>,
  under which the platform finds the reply \<open>r4\<close>.  The first polling cycle saves
  \<open>r4\<close>, likes it and answers it.  The processed cache is cleared, as by a restart.
  In the second cycle the query of \<^verbatim>\<open>get_existing_reply_ids\<close> raises, the method
  returns the empty list, \<open>r4\<close> is taken for new, \<^verbatim>\<open>save_reply\<close> finds the row and returns
  its identifier, and the handler likes \<open>r4\<close> and answers it again: the log holds two
  likes and two answers for \<open>r4\<close>, and the counter of the conversation \<open>t1\<close> has been
  incremented twice, while the table holds \<open>r4\<close> once.  In the same run with a query
  that answers, the second cycle does nothing for \<open>r4\<close>.
\<close>

theorem reply_processed_twice_after_failed_query:
  "stored_ids (run_handler flaky_env chatty_config [CheckReplies] owner_bot) = [''r4'']
   \<and> liked_ids (calls (run_handler flaky_env chatty_config [CheckReplies] owner_bot)) = [''r4'']
   \<and> liked_ids (calls (run_handler flaky_env chatty_config
                          [CheckReplies, ClearCache, CheckReplies] owner_bot))
       = [''r4'', ''r4'']
   \<and> replied_ids (calls (run_handler flaky_env chatty_config
                            [CheckReplies, ClearCache, CheckReplies] owner_bot))
       = [''r4'', ''r4'']
   \<and> conversation_replies (run_handler flaky_env chatty_config
                              [CheckReplies, ClearCache, CheckReplies] owner_bot)
       = [(''t1'', 2)]
   \<and> stored_ids (run_handler flaky_env chatty_config
                    [CheckReplies, ClearCache, CheckReplies] owner_bot) = [''r4'']
   \<and> liked_ids (calls (run_handler single_env chatty_config
                          [CheckReplies, ClearCache, CheckReplies] owner_bot))
       = [''r4'']
   \<and> conversation_replies (run_handler single_env chatty_config
                              [CheckReplies, ClearCache, CheckReplies] owner_bot)
       = [(''t1'', 1)]"
  by (simp add: bot_defs example_defs owner_bot_def chatty_config_def flaky_env_def)

section \<open>The manual deep scan\<close>

text \<open>
  C9.  \<^verbatim>\<open>manual_deep_scan\<close> saves every reply that is not in the cache it started with
  and then likes and answers it, whether or not the reply was in the table before:
  it neither asks \<^verbatim>\<open>get_existing_reply_ids\<close> nor looks at what \<^verbatim>\<open>save_reply\<close> returns,
  as the polling cycle does.  Here \<open>r4\<close> is in the table, already liked, and the cache
  is empty as after a restart.  The deep scan likes \<open>r4\<close> and answers it again, where a
  polling cycle on the same state does nothing.  With \<open>r4\<close> in the cache the deep scan
  skips it: the cache is not bypassed either.
\<close>

theorem manual_deep_scan_reactions:
  "reply_exists ''r4'' persisted_bot
   \<and> liked_ids (calls (snd (manual_deep_scan single_env demo_config 30 persisted_bot))) = [''r4'']
   \<and> replied_ids (calls (snd (manual_deep_scan single_env demo_config 30 persisted_bot))) = [''r4'']
   \<and> calls (snd (check_and_handle_replies single_env demo_config persisted_bot))
       = [SearchRecent ''t1'' 10]
   \<and> calls (snd (manual_deep_scan single_env demo_config 30
                    (persisted_bot\<lparr>processed_replies := [''r4'']\<rparr>)))
       = [SearchRecent ''t1'' 10]"
  by (simp add: reply_exists_def bot_defs example_defs)

section \<open>The cap on answers in a conversation\<close>

lemma numbered_id_inj: "(numbered_id m = numbered_id n) = (m = n)"
proof
  assume "numbered_id m = numbered_id n"
  then have "length (numbered_id m) = length (numbered_id n)" by simp
  then show "m = n" by (simp add: numbered_id_def)
qed simp

lemma sort_key_constant:
  assumes "\<forall>x \<in> set xs. f x = c"
  shows "sort_key f xs = xs"
  using assms
proof (induction xs)
  case Nil
  then show ?case by simp
next
  case (Cons x xs)
  then have "sort_key f xs = xs" by simp
  then show ?case using Cons.prems by (cases xs) simp_all
qed

lemma numbered_lookup:
  "dict_get (map (\<lambda>n. (numbered_id n, 1::int)) [0..<k]) (numbered_id m) 0
     = (if m < k then 1 else 0)"
proof -
  have "map_of (map (\<lambda>n. (numbered_id n, 1::int)) [0..<k]) (numbered_id m)
          = (if m < k then Some 1 else None)"
    by (induction k) (auto simp: numbered_id_inj map_add_def less_Suc_eq split: option.splits)
  then show ?thesis by (simp add: dict_get_def)
qed

lemma dict_set_absent:
  assumes "k \<notin> fst ` set d"
  shows "dict_set d k v = d @ [(k, v)]"
  using assms by (induction d) auto

lemma numbered_append:
  assumes "k \<le> m"
  shows "dict_set (map (\<lambda>n. (numbered_id n, 1::int)) [0..<k]) (numbered_id m) v
           = map (\<lambda>n. (numbered_id n, 1)) [0..<k] @ [(numbered_id m, v)]"
  using assms by (intro dict_set_absent) (auto simp: numbered_id_inj)

lemma numbered_eviction:
  "take 50 (sort_key (\<lambda>x. - snd x)
      (map (\<lambda>n. (numbered_id n, 1::int)) [0..<100] @ [(numbered_id 100, 1)]))
     = map (\<lambda>n. (numbered_id n, 1)) [0..<50]"
proof -
  have "sort_key (\<lambda>x. - snd x)
          (map (\<lambda>n. (numbered_id n, 1::int)) [0..<100] @ [(numbered_id 100, 1)])
        = map (\<lambda>n. (numbered_id n, 1)) [0..<100] @ [(numbered_id 100, 1)]"
    by (rule sort_key_constant [where c = "-1"]) auto
  then show ?thesis by (simp add: take_map)
qed

lemma dict_get_simps:
  "dict_get [] k d = d"
  "dict_get ((k', v) # xs) k d = (if k' = k then v else dict_get xs k d)"
  by (auto simp: dict_get_def)

lemmas cycle_defs =
  check_and_handle_replies_def get_recent_tweets_def
  consult_def gateway_def get_tweet_replies_def check_quota_def Let_def timedelta_days_def
  dict_get_simps update_quota_def get_existing_reply_ids_def process_reply_def
  set_add_def save_reply_def truthy_def like_and_reply_def auto_like_reply_def like_tweet_def
  mark_reply_liked_def auto_reply_to_comment_def generate_reply_content_def
  generate_llm_reply_def get_username_from_author_id_def post_tweet_def
  clean_processed_replies_def clean_conversation_replies_def

text \<open>At the cap \<^verbatim>\<open>_auto_reply_to_comment\<close> returns \<^verbatim>\<open>False\<close> and does nothing.\<close>

lemma auto_reply_at_cap:
  assumes "max_replies_per_conversation cfg
             \<le> dict_get (conversation_replies s) (original_tweet_id reply) 0"
  shows "auto_reply_to_comment e cfg reply s = (False, s)"
  using assms by (simp add: auto_reply_to_comment_def Let_def)

lemma cycle1:
  "snd (check_and_handle_replies growing_env demo_config crowded_bot) =
     crowded_bot\<lparr>quota_usage := [(''posts'', 1), (''reads'', 1), (''likes'', 1)],
       replies_table := [(''row'', \<lparr>reply_id = ''a1'', original_tweet_id = numbered_id 100,
           author_id = Some ''42'', content = ''hi'', created_at = 0, liked = True\<rparr>)],
       processed_replies := [''a1''], startup_check_done := True,
       conversation_replies := map (\<lambda>n. (numbered_id n, 1)) [0..<50],
       tick := 15,
       calls := [SearchRecent (numbered_id 100) 10, GetTweet ''a1'', GetTweet ''a1'', GetMe,
                 Like ''a1'', GetUser (Some ''42''), CreateTweet ''thanks'' (Some ''a1'')]\<rparr>"
  by (simp add: cycle_defs crowded_bot_def fresh_bot_def growing_env_def demo_env_def
      demo_config_def thread_reply_def numbered_lookup numbered_append numbered_eviction)


text \<open>
  C2.  The cap does not hold across an eviction of the conversation counters.  With a
  cap of one answer and 100 conversations answered so far, a first polling cycle
  answers the reply \<open>a1\<close> in a further conversation; this makes 101 counters, and the
  trim at the end of the cycle keeps 50 of them and forgets this conversation.  The
  second cycle finds the reply \<open>a2\<close> in the same conversation, reads a count of 0 and
  answers again: two answers in one conversation, against a cap of one.
\<close>

theorem conversation_cap_after_eviction:
  "max_replies_per_conversation demo_config = 1
   \<and> length (conversation_replies crowded_bot) = 100
   \<and> replied_ids (calls (run_handler growing_env demo_config [CheckReplies, CheckReplies]
                            crowded_bot)) = [''a1'', ''a2'']
   \<and> map (\<lambda>row. (reply_id (snd row), original_tweet_id (snd row)))
         (replies_table (run_handler growing_env demo_config [CheckReplies, CheckReplies]
                           crowded_bot))
       = [(''a1'', numbered_id 100), (''a2'', numbered_id 100)]"
proof -
  have cap: "max_replies_per_conversation demo_config = 1" by (simp add: demo_config_def)
  have len: "length (conversation_replies crowded_bot) = 100"
    by (simp add: crowded_bot_def)
  have cycle2:
    "calls (snd (check_and_handle_replies growing_env demo_config
                   (snd (check_and_handle_replies growing_env demo_config crowded_bot))))
       = [SearchRecent (numbered_id 100) 10, GetTweet ''a1'', GetTweet ''a1'', GetMe,
          Like ''a1'', GetUser (Some ''42''), CreateTweet ''thanks'' (Some ''a1''),
          SearchRecent (numbered_id 100) 10, GetTweet ''a2'', GetTweet ''a2'', GetMe,
          Like ''a2'', GetUser (Some ''42''), CreateTweet ''thanks'' (Some ''a2'')]
     \<and> map (\<lambda>row. (reply_id (snd row), original_tweet_id (snd row)))
         (replies_table (snd (check_and_handle_replies growing_env demo_config
                   (snd (check_and_handle_replies growing_env demo_config crowded_bot)))))
       = [(''a1'', numbered_id 100), (''a2'', numbered_id 100)]"
    unfolding cycle1
    by (simp add: cycle_defs crowded_bot_def fresh_bot_def growing_env_def demo_env_def
        demo_config_def thread_reply_def numbered_lookup numbered_append)
  show ?thesis
    using cap len cycle2 by (simp add: replied_ids_def)
qed

section \<open>The trim of the processed cache\<close>

lemma clean_processed_replies_trim:
  assumes iter: "distinct (set_iteration e (processed_replies s))
                 \<and> set (set_iteration e (processed_replies s)) = set (processed_replies s)"
    and d: "distinct (processed_replies s)"
  shows "(1000 < length (processed_replies s) \<longrightarrow>
            length (processed_replies (clean_processed_replies e s)) = 500
          \<and> set (processed_replies (clean_processed_replies e s)) \<subseteq> set (processed_replies s))
       \<and> (length (processed_replies s) \<le> 1000 \<longrightarrow> clean_processed_replies e s = s)
       \<and> distinct (processed_replies (clean_processed_replies e s))
       \<and> length (processed_replies (clean_processed_replies e s)) \<le> 1000"
proof -
  let ?c = "processed_replies s" and ?it = "set_iteration e (processed_replies s)"
  have len: "length ?it = length ?c"
    using iter d by (metis distinct_card)
  have sub: "set (drop (length ?it - 500) ?it) \<subseteq> set ?c"
    using iter set_drop_subset by fastforce
  have dist: "distinct (drop (length ?it - 500) ?it)"
    using iter by simp
  show ?thesis
    using len sub dist d by (auto simp: clean_processed_replies_def)
qed

text \<open>Whatever the order in which the set is iterated, a cache of more than 1000
  identifiers is cut down at the end of a polling cycle to exactly 500 of its
  identifiers, and a cache of at most 1000 is left as it is.  So after every completed
  cycle the cache holds at most 1000 identifiers; a cycle that fails on the store
  changes nothing.\<close>

lemma check_and_handle_replies_cache_bound:
  assumes iter: "\<forall>c. distinct c \<longrightarrow> distinct (set_iteration e c) \<and> set (set_iteration e c) = set c"
    and d: "distinct (processed_replies s)"
  shows "(1000 < length (processed_replies s) \<longrightarrow>
            length (processed_replies (clean_processed_replies e s)) = 500
          \<and> set (processed_replies (clean_processed_replies e s)) \<subseteq> set (processed_replies s))
       \<and> (length (processed_replies s) \<le> 1000 \<longrightarrow> clean_processed_replies e s = s)
       \<and> (fst (check_and_handle_replies e cfg s) \<noteq> None \<longrightarrow>
            length (processed_replies (snd (check_and_handle_replies e cfg s))) \<le> 1000
          \<and> distinct (processed_replies (snd (check_and_handle_replies e cfg s))))
       \<and> (fst (check_and_handle_replies e cfg s) = None \<longrightarrow>
            snd (check_and_handle_replies e cfg s) = s)"
proof -
  have it: "distinct (set_iteration e (processed_replies x))
            \<and> set (set_iteration e (processed_replies x)) = set (processed_replies x)"
    if "distinct (processed_replies x)" for x
    using iter that by blast
  note trim = clean_processed_replies_trim [OF it [OF d] d]
  have failed: "snd (check_and_handle_replies e cfg s) = s"
    if "fst (check_and_handle_replies e cfg s) = None"
    using that
    by (auto simp: check_and_handle_replies_def get_recent_tweets_def split: if_splits prod.splits)
  have completed: "length (processed_replies (snd (check_and_handle_replies e cfg s))) \<le> 1000
          \<and> distinct (processed_replies (snd (check_and_handle_replies e cfg s)))"
    if ok: "fst (check_and_handle_replies e cfg s) \<noteq> None"
  proof -
    let ?hours = "if startup_check_done s then 24 else 168 :: int"
    have "\<not> supabase s \<Longrightarrow> fst (check_and_handle_replies e cfg s) = None"
      by (simp add: check_and_handle_replies_def get_recent_tweets_def)
    then have sup: "supabase s" using ok by blast
    obtain our_tweets where g: "get_recent_tweets e ?hours s = (Returns our_tweets, consult s)"
      using sup by (simp add: get_recent_tweets_def)
    let ?s0 = "(consult s)\<lparr>startup_check_done := True\<rparr>"
    let ?st0 = "\<lparr>checked_tweets = int (length our_tweets), new_replies = 0, likes_sent = 0,
               replies_sent = 0, errors = 0, startup_check = \<not> startup_check_done s\<rparr>"
    obtain stats s2 where h: "handle_tweets e cfg our_tweets ?st0 ?s0 = (stats, s2)"
      by (cases "handle_tweets e cfg our_tweets ?st0 ?s0") auto
    have d0: "distinct (processed_replies ?s0)" using d by (simp add: consult_def)
    have d2: "distinct (processed_replies s2)"
      using handle_tweets_cache [OF h] d0 by simp
    have res: "processed_replies (snd (check_and_handle_replies e cfg s))
           = processed_replies (clean_processed_replies e s2)"
      using g h by (simp add: check_and_handle_replies_def consult_def clean_fields)
    show ?thesis
      unfolding res using clean_processed_replies_trim [OF it [OF d2] d2] by simp
  qed
  show ?thesis using trim failed completed by blast
qed

lemma numbered_ids_distinct: "distinct (map numbered_id [0..<n])"
  by (simp add: distinct_map inj_on_def numbered_id_inj)

text \<open>
  C8.  Which identifiers survive the trim is decided by the order in which the set is
  iterated, not by the order of insertion.  The trim keeps the last 500 identifiers of
  \<^verbatim>\<open>list(self._processed_replies)\<close>; every identifier the iteration lists before them
  is dropped, however recently it was inserted.
\<close>

theorem processed_cache_trim_not_fifo:
  assumes big: "1000 < length (processed_replies s)"
    and d: "distinct (processed_replies s)"
    and iter: "distinct (set_iteration e (processed_replies s))
               \<and> set (set_iteration e (processed_replies s)) = set (processed_replies s)"
    and x: "x \<in> set (take (length (processed_replies s) - 500)
                        (set_iteration e (processed_replies s)))"
  shows "x \<in> set (processed_replies s)
       \<and> x \<notin> set (processed_replies (clean_processed_replies e s))
       \<and> length (processed_replies (clean_processed_replies e s)) = 500"
proof -
  let ?c = "processed_replies s" and ?it = "set_iteration e (processed_replies s)"
  let ?k = "length ?c - 500"
  have len: "length ?it = length ?c"
    using iter d by (metis distinct_card)
  have "distinct (take ?k ?it @ drop ?k ?it)" using iter by simp
  then have disj: "set (take ?k ?it) \<inter> set (drop ?k ?it) = {}"
    by (simp only: distinct_append)
  have mem: "x \<in> set ?c" using x iter in_set_takeD by fastforce
  have res: "processed_replies (clean_processed_replies e s) = drop ?k ?it"
    using big len by (simp add: clean_processed_replies_def)
  have gone: "x \<notin> set (drop ?k ?it)" using x disj by blast
  have l: "length (drop ?k ?it) = 500" using big len by simp
  show ?thesis using mem res gone l by simp
qed

text \<open>A cache of 2000 identifiers, iterated in the reverse of the order of insertion:
  the identifier inserted last is dropped, and the 500 identifiers kept are the ones
  inserted first.\<close>

lemma last_in_take_rev:
  assumes "500 < length c"
  shows "last c \<in> set (take (length c - 500) (rev c))"
proof -
  have tk: "take (length c - 500) (rev c) = rev (drop 500 c)"
    using assms by (simp add: take_rev)
  have "drop 500 c \<noteq> []" using assms by simp
  then have "last (drop 500 c) \<in> set (drop 500 c)" by (rule last_in_set)
  moreover have "last (drop 500 c) = last c" using assms by (simp add: last_drop)
  ultimately show ?thesis unfolding tk by simp
qed

lemma last_numbered: "last (map numbered_id [0..<Suc n]) = numbered_id n"
  by simp

theorem processed_cache_trim_not_fifo_witness:
  "length (processed_replies big_cache_bot) = 2000
   \<and> last (processed_replies big_cache_bot) = numbered_id 1999
   \<and> numbered_id 1999 \<notin> set (processed_replies (clean_processed_replies reversing_env big_cache_bot))
   \<and> length (processed_replies (clean_processed_replies reversing_env big_cache_bot)) = 500
   \<and> processed_replies (clean_processed_replies reversing_env big_cache_bot)
       = rev (map numbered_id [0..<500])"
proof -
  let ?c = "processed_replies big_cache_bot"
  have c: "?c = map numbered_id [0..<2000]"
    by (simp add: big_cache_bot_def)
  have len: "length ?c = 2000"
    by (simp add: big_cache_bot_def)
  have it: "set_iteration reversing_env ?c = rev ?c"
    by (simp add: reversing_env_def)
  have big: "1000 < length ?c" using len by simp
  have d: "distinct ?c"
    unfolding c by (rule numbered_ids_distinct)
  have iter: "distinct (set_iteration reversing_env ?c)
              \<and> set (set_iteration reversing_env ?c) = set ?c"
    unfolding it using d by simp
  have lst: "last ?c = numbered_id 1999"
    unfolding c using last_numbered [of 1999] by simp
  have "last ?c \<in> set (take (length ?c - 500) (rev ?c))"
    using len by (intro last_in_take_rev) simp
  then have x: "numbered_id 1999 \<in> set (take (length ?c - 500) (set_iteration reversing_env ?c))"
    unfolding it lst .
  have "processed_replies (clean_processed_replies reversing_env big_cache_bot)
          = drop (length ?c - 500) (rev ?c)"
    using big len by (simp add: clean_processed_replies_def it)
  also have "\<dots> = rev (take 500 ?c)"
    using len by (simp add: drop_rev)
  also have "take 500 ?c = map numbered_id [0..<500]"
    unfolding c by (simp add: take_map)
  finally have kept: "processed_replies (clean_processed_replies reversing_env big_cache_bot)
                        = rev (map numbered_id [0..<500])" .
  note inst = processed_cache_trim_not_fifo [OF big d iter x]
  from inst have gone: "numbered_id 1999
      \<notin> set (processed_replies (clean_processed_replies reversing_env big_cache_bot))"
    and l500: "length (processed_replies (clean_processed_replies reversing_env big_cache_bot)) = 500"
    by blast+
  show ?thesis using len lst gone l500 kept by blast
qed

end
